theory Spec2Isabelle
  imports Main "HOL-Library.Word"
begin

section \<open>Data model (types.go)\<close>

text \<open>
  Go strings are byte sequences and are modelled as \<open>string\<close> (a list of 8-bit
  characters). Go's \<open>int\<close> fields are modelled as \<open>int\<close>; the only place where the
  64-bit range matters is \<open>Atoi\<close>, which checks it explicitly.
\<close>

abbreviation NL :: char where
  "NL \<equiv> CHR 0x0A"

record Config =
  Hostname :: string
  Database :: string
  Port :: int
  UserID :: string
  Password :: string
  Lang :: string
  Remarks :: "string list"
  CSVFile :: string
  SystemSchema :: string
  TargetSchema :: "string list"

record KeyType =
  Constraint :: int
  Order :: int

record Column =
  Name :: string
  Alias :: string
  Description :: string
  Type :: string
  Mode :: int
  Order :: int
  KeyType :: KeyType

record Metadata =
  Name :: string
  Alias :: string
  FormalName :: string
  Description :: string
  MetaType :: int
  Lang :: string
  Columns :: "Column list"

text \<open>The zero values of the three structs (what Go's \<open>T{}\<close> denotes).\<close>

definition zero_KeyType :: KeyType where
  "zero_KeyType = \<lparr>Constraint = 0, KeyType.Order = 0\<rparr>"

definition zero_Column :: Column where
  "zero_Column = \<lparr>Column.Name = [], Column.Alias = [], Column.Description = [],
     Type = [], Mode = 0, Column.Order = 0, KeyType = zero_KeyType\<rparr>"

definition zero_Metadata :: Metadata where
  "zero_Metadata = \<lparr>Name = [], Alias = [], FormalName = [], Description = [],
     MetaType = 0, Lang = [], Columns = []\<rparr>"

definition MetaTypeName :: "Metadata \<Rightarrow> string" where
  "MetaTypeName m =
     (if MetaType m = 1 then ''Table''
      else if MetaType m = 2 then ''Model''
      else if MetaType m = 3 then ''Stream''
      else if MetaType m = 4 then ''File''
      else [])"

definition ModeName :: "Column \<Rightarrow> string" where
  "ModeName c =
     (if Mode c = 0 then ''Nullable''
      else if Mode c = 1 then ''Required''
      else if Mode c = 2 then ''Repeated''
      else [])"

definition ConstraintName :: "KeyType \<Rightarrow> string" where
  "ConstraintName k = (if Constraint k = 1 then ''Primary'' else [])"

text \<open>
  The two \<open>fmt.Sprintf\<close> calls of \<open>ToCSVString\<close>; every verb is \<open>%s\<close> on a string, so
  the arguments are spliced in verbatim.
\<close>

definition table_record :: "Metadata \<Rightarrow> string" where
  "table_record m =
     ''20,,'' @ FormalName m @ '','' @ Metadata.Alias m @ '','' @ Metadata.Description m
       @ '','' @ Lang m @ '','' @ MetaTypeName m @ [NL]"

definition column_record :: "Column \<Rightarrow> string" where
  "column_record c =
     ''30,,'' @ Column.Name c @ '','' @ Column.Alias c @ '','' @ Column.Description c
       @ '','' @ Type c @ '','' @ ModeName c @ '','' @ ConstraintName (KeyType c) @ [NL]"

text \<open>
  \<open>ToCSVString\<close>: the \<open>strings.Builder\<close> is the accumulated string; the \<open>range\<close>
  loop over the columns is a left fold that appends one record per column.
\<close>

definition ToCSVString :: "Metadata \<Rightarrow> string" where
  "ToCSVString m =
     (let buf = [];
          buf = buf @ table_record m;
          buf = foldl (\<lambda>b c. b @ column_record c) buf (Columns m);
          buf = buf @ [NL]
      in buf)"


section \<open>Errors and the pipeline envelope (rdbms.go)\<close>

text \<open>
  Go's \<open>error\<close> values: a nil error is \<open>None\<close>. The constructors are the errors the
  program can meet: one reported by \<open>database/sql\<close> or the driver, one returned by the
  sink's \<open>Write\<close>, the scanner's \<open>errors.New("destination pointer is nil")\<close>, and the
  correlator's \<open>fmt.Errorf("meta.FormalName(%s) != formalName(%s)", a, b)\<close>, kept with
  its two arguments.
\<close>

datatype error =
    DriverError string
  | SinkError string
  | NilDestination
  | CorrelationError string string

record MetadataInProcess =
  Data :: Metadata
  Err :: "error option"

text \<open>The composite literals \<open>MetadataInProcess{Err: err}\<close> and \<open>MetadataInProcess{Data: d}\<close>.\<close>

definition err_env :: "error \<Rightarrow> MetadataInProcess" where
  "err_env e = \<lparr>Data = zero_Metadata, Err = Some e\<rparr>"

definition data_env :: "Metadata \<Rightarrow> MetadataInProcess" where
  "data_env d = \<lparr>Data = d, Err = None\<rparr>"

definition zero_MetadataInProcess :: MetadataInProcess where
  "zero_MetadataInProcess = \<lparr>Data = zero_Metadata, Err = None\<rparr>"

section \<open>Generic row scanner and catalog row stream\<close>

text \<open>
  The values a driver hands to \<open>Scan\<close>. Timestamps, floating-point numbers and values
  of any other Go type are kept abstract; their renderings are functions of Go's
  standard library, taken as the parameter \<open>lib\<close>. The integer kinds carry the
  \<open>int64\<close> / \<open>uint64\<close> that \<open>reflect.Value.Int\<close> / \<open>Uint\<close> return.
\<close>

typedecl Time
typedecl float64
typedecl float32
typedecl go_value

datatype dbvalue =
    VNil
  | VString string
  | VBytes string
  | VTime Time
  | VInt "64 word"
  | VUint "64 word"
  | VFloat64 float64
  | VFloat32 float32
  | VBool bool
  | VOther go_value

record stdlib =
  time_Format :: "Time \<Rightarrow> string \<Rightarrow> string"
  float32_to_float64 :: "float32 \<Rightarrow> float64"
  strconv_FormatFloat :: "float64 \<Rightarrow> char \<Rightarrow> int \<Rightarrow> nat \<Rightarrow> string"
  fmt_Sprint_v :: "go_value \<Rightarrow> string"

definition RFC3339Nano :: string where
  "RFC3339Nano = ''2006-01-02T15:04:05.999999999Z07:00''"

text \<open>
  \<open>strconv.FormatUint(n, 10)\<close> and \<open>strconv.FormatInt(i, 10)\<close>: the decimal digits of
  the value, most significant first, with a leading minus sign for a negative value.
\<close>

definition digit_char :: "nat \<Rightarrow> char" where
  "digit_char d = char_of (48 + d)"

function FormatUint10 :: "nat \<Rightarrow> string" where
  "FormatUint10 n =
     (if n < 10 then [digit_char n] else FormatUint10 (n div 10) @ [digit_char (n mod 10)])"
  by pat_completeness auto
termination
  by (relation "measure id") auto

declare FormatUint10.simps [simp del]

definition FormatInt10 :: "int \<Rightarrow> string" where
  "FormatInt10 i =
     (if i < 0 then CHR ''-'' # FormatUint10 (nat (- i)) else FormatUint10 (nat i))"

definition FormatBool :: "bool \<Rightarrow> string" where
  "FormatBool b = (if b then ''true'' else ''false'')"

type_synonym ColumnValue = string

text \<open>
  \<open>ColumnValue.Scan\<close>. The receiver is a pointer: \<open>None\<close> is the nil pointer, and
  \<open>Some old\<close> points at a value whose old contents are overwritten. The result is the
  returned error, or the string stored through the pointer.
\<close>

definition ColumnValue_Scan ::
  "stdlib \<Rightarrow> ColumnValue option \<Rightarrow> dbvalue \<Rightarrow> error + ColumnValue" where
  "ColumnValue_Scan lib v val =
     (case v of
        None \<Rightarrow> Inl NilDestination
      | Some old \<Rightarrow>
          (case val of
             VNil \<Rightarrow> Inr []
           | VString src \<Rightarrow> Inr src
           | VBytes src \<Rightarrow> Inr src
           | VTime src \<Rightarrow> Inr (time_Format lib src RFC3339Nano)
           | VInt i \<Rightarrow> Inr (FormatInt10 (sint i))
           | VUint u \<Rightarrow> Inr (FormatUint10 (unat u))
           | VFloat64 f \<Rightarrow> Inr (strconv_FormatFloat lib f CHR ''g'' (- 1) 64)
           | VFloat32 f \<Rightarrow>
               Inr (strconv_FormatFloat lib (float32_to_float64 lib f) CHR ''g'' (- 1) 32)
           | VBool b \<Rightarrow> Inr (FormatBool b)
           | VOther x \<Rightarrow> Inr (fmt_Sprint_v lib x)))"

text \<open>
  \<open>ColumnList\<close>: the answer of the database to the column-discovery query is either
  an error or the result rows; scanning a row into a Go string may fail, the error
  is ignored and the empty string is appended.
\<close>

definition ColumnList :: "error + (error + string) list \<Rightarrow> error + string list" where
  "ColumnList answer =
     (case answer of
        Inl e \<Rightarrow> Inl e
      | Inr rows \<Rightarrow> Inr (map (\<lambda>r. case r of Inl e \<Rightarrow> [] | Inr column \<Rightarrow> column) rows))"

type_synonym rowmap = "string \<rightharpoonup> string"

text \<open>The struct \<open>Row\<close>; its field \<open>values\<close> is named \<open>row_values\<close> here.\<close>

record Row =
  names :: "string list"
  row_values :: "ColumnValue list"

definition NewRow :: "string list \<Rightarrow> Row" where
  "NewRow ns = \<lparr>names = ns, row_values = replicate (length ns) []\<rparr>"

text \<open>
  \<open>Row.Map\<close>. \<open>NewRow\<close> allocates one value per name and nothing changes either
  length, so the index of the \<open>range\<close> loop is always in range and the loop visits
  the pairs of \<open>zip names values\<close> in order.
\<close>

definition Row_Map :: "Row \<Rightarrow> rowmap" where
  "Row_Map r =
     foldl (\<lambda>m (name, v). if v \<noteq> [] then m(name \<mapsto> v) else m)
       Map.empty (zip (names r) (row_values r))"

text \<open>
  \<open>sql.Rows.Scan\<close> into the row's pointers: it refuses a destination count different
  from the number of result columns (with the error text of \<open>database/sql\<close>), and
  otherwise hands each value to the destination's \<open>Scan\<close>, stopping at the first
  error.
\<close>

fun scan_all :: "stdlib \<Rightarrow> ColumnValue list \<Rightarrow> dbvalue list \<Rightarrow> error + ColumnValue list" where
  "scan_all lib (d # ds) (x # xs) =
     (case ColumnValue_Scan lib (Some d) x of
        Inl e \<Rightarrow> Inl e
      | Inr v \<Rightarrow> (case scan_all lib ds xs of Inl e \<Rightarrow> Inl e | Inr vs \<Rightarrow> Inr (v # vs)))"
| "scan_all lib ds xs = Inr []"

definition sql_Rows_Scan :: "stdlib \<Rightarrow> Row \<Rightarrow> dbvalue list \<Rightarrow> error + Row" where
  "sql_Rows_Scan lib r vals =
     (if length vals = length (row_values r)
      then (case scan_all lib (row_values r) vals of
              Inl e \<Rightarrow> Inl e
            | Inr vs \<Rightarrow> Inr (r\<lparr>row_values := vs\<rparr>))
      else Inl (DriverError
             (''sql: expected '' @ FormatUint10 (length vals)
                @ '' destination arguments in Scan, not ''
                @ FormatUint10 (length (row_values r)))))"

text \<open>
  \<open>Query.Scan\<close> on the result row that \<open>rows.Next()\<close> has just delivered, given by
  its values. A successful scan overwrites every value of the row buffer, so the
  buffer carries nothing from one row to the next.
\<close>

definition Query_Scan :: "stdlib \<Rightarrow> Row \<Rightarrow> dbvalue list \<Rightarrow> error + rowmap" where
  "Query_Scan lib r vals =
     (case sql_Rows_Scan lib r vals of
        Inl e \<Rightarrow> Inl e
      | Inr r' \<Rightarrow> Inr (Row_Map r'))"

section \<open>Dialect mappers (the three extractors)\<close>

text \<open>
  \<open>strings.TrimSpace\<close> removes every leading and every trailing white-space rune, as
  \<open>unicode.IsSpace\<close> defines them: U+0009 to U+000D, U+0020, U+0085, U+00A0, U+1680,
  U+2000 to U+200A, U+2028, U+2029, U+202F, U+205F and U+3000. On the bytes of a Go
  string these are the UTF-8 encodings listed in \<open>White_Space\<close>; a string starts
  (ends) with such a rune exactly when it starts (ends) with its encoding, so
  \<open>TrimLeft\<close> strips encodings from the front, and the trailing runes are stripped
  from the front of the reversed string.
\<close>

definition White_Space :: "string list" where
  "White_Space =
     [[CHR 0x09], [CHR 0x0A], [CHR 0x0B], [CHR 0x0C], [CHR 0x0D], [CHR 0x20],
      [CHR 0xC2, CHR 0x85], [CHR 0xC2, CHR 0xA0],
      [CHR 0xE1, CHR 0x9A, CHR 0x80],
      [CHR 0xE2, CHR 0x80, CHR 0x80], [CHR 0xE2, CHR 0x80, CHR 0x81],
      [CHR 0xE2, CHR 0x80, CHR 0x82], [CHR 0xE2, CHR 0x80, CHR 0x83],
      [CHR 0xE2, CHR 0x80, CHR 0x84], [CHR 0xE2, CHR 0x80, CHR 0x85],
      [CHR 0xE2, CHR 0x80, CHR 0x86], [CHR 0xE2, CHR 0x80, CHR 0x87],
      [CHR 0xE2, CHR 0x80, CHR 0x88], [CHR 0xE2, CHR 0x80, CHR 0x89],
      [CHR 0xE2, CHR 0x80, CHR 0x8A],
      [CHR 0xE2, CHR 0x80, CHR 0xA8], [CHR 0xE2, CHR 0x80, CHR 0xA9],
      [CHR 0xE2, CHR 0x80, CHR 0xAF],
      [CHR 0xE2, CHR 0x81, CHR 0x9F],
      [CHR 0xE3, CHR 0x80, CHR 0x80]]"

function TrimLeft :: "string list \<Rightarrow> string \<Rightarrow> string" where
  "TrimLeft runes s =
     (case find (\<lambda>r. r \<noteq> [] \<and> take (length r) s = r) runes of
        Some r \<Rightarrow> TrimLeft runes (drop (length r) s)
      | None \<Rightarrow> s)"
  by pat_completeness auto
termination
proof (relation "measure (\<lambda>(runes, s). length s)")
  show "wf (measure (\<lambda>(runes, s). length s))" by simp
next
  fix runes :: "string list" and s r :: string
  assume "find (\<lambda>r. r \<noteq> [] \<and> take (length r) s = r) runes = Some r"
  then have nonempty: "r \<noteq> []" and starts: "take (length r) s = r"
    by (auto simp add: find_Some_iff)
  from starts have "length (take (length r) s) = length r"
    by simp
  then have "length r \<le> length s"
    by simp
  moreover from nonempty have "0 < length r"
    by simp
  ultimately have "length s - length r < length s"
    by linarith
  then show "((runes, drop (length r) s), (runes, s)) \<in> measure (\<lambda>(runes, s). length s)"
    by simp
qed

declare TrimLeft.simps [simp del]

definition TrimSpace :: "string \<Rightarrow> string" where
  "TrimSpace s = rev (TrimLeft (map rev White_Space) (rev (TrimLeft White_Space s)))"


text \<open>
  \<open>strconv.Atoi\<close>: an optional sign followed by at least one decimal digit, and a
  value that fits Go's 64-bit \<open>int\<close>; anything else is an error (\<open>None\<close>).
\<close>

definition is_digit :: "char \<Rightarrow> bool" where
  "is_digit c = (48 \<le> (of_char c :: nat) \<and> (of_char c :: nat) \<le> 57)"

definition parse_digits :: "string \<Rightarrow> nat" where
  "parse_digits ds = foldl (\<lambda>n c. n * 10 + (of_char c - 48)) 0 ds"

fun Atoi_sign :: "string \<Rightarrow> bool \<times> string" where
  "Atoi_sign [] = (False, [])"
| "Atoi_sign (c # cs) =
     (if c = CHR ''-'' then (True, cs)
      else if c = CHR ''+'' then (False, cs)
      else (False, c # cs))"

definition Atoi :: "string \<Rightarrow> int option" where
  "Atoi s =
     (let (neg, ds) = Atoi_sign s in
      if ds \<noteq> [] \<and> list_all is_digit ds
      then (let n = int (parse_digits ds);
                i = (if neg then - n else n)
            in if - (2 ^ 63) \<le> i \<and> i \<le> 2 ^ 63 - 1 then Some i else None)
      else None)"

text \<open>
  The loop over \<open>config.Remarks\<close> with its \<open>switch\<close>, for a table and for a column.
\<close>

definition route_remarks_Metadata :: "string list \<Rightarrow> string \<Rightarrow> Metadata \<Rightarrow> Metadata" where
  "route_remarks_Metadata remarks v meta =
     foldl (\<lambda>meta str.
              if str = ''Alias'' then meta\<lparr>Alias := v\<rparr>
              else if str = ''Description'' then meta\<lparr>Description := v\<rparr>
              else meta)
       meta remarks"

definition route_remarks_Column :: "string list \<Rightarrow> string \<Rightarrow> Column \<Rightarrow> Column" where
  "route_remarks_Column remarks v col =
     foldl (\<lambda>col str.
              if str = ''Alias'' then col\<lparr>Column.Alias := v\<rparr>
              else if str = ''Description'' then col\<lparr>Column.Description := v\<rparr>
              else col)
       col remarks"

text \<open>\<open>Db2Extractor.toMetadata\<close> (catalog SYSCAT, db2.go).\<close>

definition Db2_toMetadata :: "Config \<Rightarrow> rowmap \<Rightarrow> Metadata" where
  "Db2_toMetadata config m =
     (let meta = zero_Metadata\<lparr>MetaType := 1, Lang := Config.Lang config\<rparr>;
          meta = (case m ''TABNAME'' of Some v \<Rightarrow> meta\<lparr>Name := v\<rparr> | None \<Rightarrow> meta);
          meta = (case m ''TABSCHEMA'' of
                    Some v \<Rightarrow>
                      if Name meta \<noteq> []
                      then meta\<lparr>FormalName := TrimSpace v @ ''.'' @ Name meta\<rparr>
                      else meta
                  | None \<Rightarrow> meta)
      in meta)"

text \<open>\<open>ZDb2Extractor.toMetadata\<close> (catalog SYSIBM).\<close>

definition ZDb2_toMetadata :: "Config \<Rightarrow> rowmap \<Rightarrow> Metadata" where
  "ZDb2_toMetadata config m =
     (let meta = zero_Metadata\<lparr>MetaType := 1, Lang := Config.Lang config\<rparr>;
          meta = (case m ''NAME'' of Some v \<Rightarrow> meta\<lparr>Name := v\<rparr> | None \<Rightarrow> meta);
          meta = (case m ''CREATOR'' of
                    Some v \<Rightarrow>
                      if Name meta \<noteq> []
                      then meta\<lparr>FormalName := TrimSpace v @ ''.'' @ Name meta\<rparr>
                      else meta
                  | None \<Rightarrow> meta);
          meta = (case m ''REMARKS'' of
                    Some v \<Rightarrow> route_remarks_Metadata (Remarks config) v meta
                  | None \<Rightarrow> meta)
      in meta)"

text \<open>\<open>IDb2Extractor.toMetadata\<close> (catalog QSYS2).\<close>

definition IDb2_toMetadata :: "Config \<Rightarrow> rowmap \<Rightarrow> Metadata" where
  "IDb2_toMetadata config m =
     (let meta = zero_Metadata\<lparr>MetaType := 1, Lang := Config.Lang config\<rparr>;
          meta = (case m ''TABLE_NAME'' of Some v \<Rightarrow> meta\<lparr>Name := v\<rparr> | None \<Rightarrow> meta);
          meta = (case m ''TABLE_OWNER'' of
                    Some v \<Rightarrow>
                      if Name meta \<noteq> []
                      then meta\<lparr>FormalName := TrimSpace v @ ''.'' @ Name meta\<rparr>
                      else meta
                  | None \<Rightarrow> meta);
          meta = (case m ''LONG_COMMENT'' of
                    Some v \<Rightarrow> route_remarks_Metadata (Remarks config) v meta
                  | None \<Rightarrow> meta)
      in meta)"

text \<open>\<open>Db2Extractor.toColumn\<close>: the column and the qualified name of its table.\<close>

definition Db2_toColumn :: "Config \<Rightarrow> rowmap \<Rightarrow> Column \<times> string" where
  "Db2_toColumn config m =
     (let col = zero_Column;
          col = (case m ''COLNAME'' of Some v \<Rightarrow> col\<lparr>Column.Name := v\<rparr> | None \<Rightarrow> col);
          col = (case m ''TYPENAME'' of
                   Some t \<Rightarrow>
                     (case m ''TYPESCHEMA'' of
                        Some s \<Rightarrow> col\<lparr>Type := TrimSpace s @ ''.'' @ t\<rparr>
                      | None \<Rightarrow> col\<lparr>Type := t\<rparr>)
                 | None \<Rightarrow> col);
          col = (case m ''NULLS'' of
                   Some v \<Rightarrow> if v = ''Y'' then col\<lparr>Mode := 0\<rparr> else col\<lparr>Mode := 1\<rparr>
                 | None \<Rightarrow> col);
          col = (case m ''COLNO'' of
                   Some v \<Rightarrow> (case Atoi v of Some i \<Rightarrow> col\<lparr>Column.Order := i\<rparr> | None \<Rightarrow> col)
                 | None \<Rightarrow> col);
          formalName = (case m ''TABSCHEMA'' of Some v \<Rightarrow> TrimSpace v | None \<Rightarrow> []);
          formalName = formalName @ ''.'';
          formalName = (case m ''TABNAME'' of Some v \<Rightarrow> formalName @ v | None \<Rightarrow> formalName);
          col = (case m ''KEYSEQ'' of
                   Some v \<Rightarrow>
                     (case Atoi v of
                        Some i \<Rightarrow> col\<lparr>KeyType := (KeyType col)\<lparr>Constraint := 1, KeyType.Order := i\<rparr>\<rparr>
                      | None \<Rightarrow> col)
                 | None \<Rightarrow> col);
          col = (case m ''REMARKS'' of
                   Some v \<Rightarrow> route_remarks_Column (Remarks config) v col
                 | None \<Rightarrow> col)
      in (col, formalName))"

text \<open>\<open>ZDb2Extractor.toColumn\<close>.\<close>

definition ZDb2_toColumn :: "Config \<Rightarrow> rowmap \<Rightarrow> Column \<times> string" where
  "ZDb2_toColumn config m =
     (let col = zero_Column;
          col = (case m ''NAME'' of Some v \<Rightarrow> col\<lparr>Column.Name := v\<rparr> | None \<Rightarrow> col);
          col = (case m ''COLTYPE'' of Some v \<Rightarrow> col\<lparr>Type := TrimSpace v\<rparr> | None \<Rightarrow> col);
          col = (case m ''NULLS'' of
                   Some v \<Rightarrow> if v = ''Y'' then col\<lparr>Mode := 0\<rparr> else col\<lparr>Mode := 1\<rparr>
                 | None \<Rightarrow> col);
          col = (case m ''COLNO'' of
                   Some v \<Rightarrow> (case Atoi v of Some i \<Rightarrow> col\<lparr>Column.Order := i\<rparr> | None \<Rightarrow> col)
                 | None \<Rightarrow> col);
          formalName = (case m ''TBCREATOR'' of Some v \<Rightarrow> TrimSpace v | None \<Rightarrow> []);
          formalName = formalName @ ''.'';
          formalName = (case m ''TBNAME'' of Some v \<Rightarrow> formalName @ v | None \<Rightarrow> formalName);
          col = (case m ''KEYSEQ'' of
                   Some v \<Rightarrow>
                     (case Atoi v of
                        Some i \<Rightarrow> col\<lparr>KeyType := (KeyType col)\<lparr>Constraint := 1, KeyType.Order := i\<rparr>\<rparr>
                      | None \<Rightarrow> col)
                 | None \<Rightarrow> col);
          col = (case m ''REMARKS'' of
                   Some v \<Rightarrow> route_remarks_Column (Remarks config) v col
                 | None \<Rightarrow> col);
          col = (case m ''LABEL'' of Some v \<Rightarrow> col\<lparr>Column.Alias := v\<rparr> | None \<Rightarrow> col)
      in (col, formalName))"

text \<open>\<open>IDb2Extractor.toColumn\<close>.\<close>

definition IDb2_toColumn :: "Config \<Rightarrow> rowmap \<Rightarrow> Column \<times> string" where
  "IDb2_toColumn config m =
     (let col = zero_Column;
          col = (case m ''COLUMN_NAME'' of Some v \<Rightarrow> col\<lparr>Column.Name := v\<rparr> | None \<Rightarrow> col);
          col = (case m ''DATA_TYPE'' of Some v \<Rightarrow> col\<lparr>Type := TrimSpace v\<rparr> | None \<Rightarrow> col);
          col = (case m ''IS_NULLABLE'' of
                   Some v \<Rightarrow> if v = ''Y'' then col\<lparr>Mode := 0\<rparr> else col\<lparr>Mode := 1\<rparr>
                 | None \<Rightarrow> col);
          col = (case m ''ORDINAL_POSITION'' of
                   Some v \<Rightarrow> (case Atoi v of Some i \<Rightarrow> col\<lparr>Column.Order := i\<rparr> | None \<Rightarrow> col)
                 | None \<Rightarrow> col);
          formalName = (case m ''TABLE_OWNER'' of Some v \<Rightarrow> TrimSpace v | None \<Rightarrow> []);
          formalName = formalName @ ''.'';
          formalName = (case m ''TABLE_NAME'' of Some v \<Rightarrow> formalName @ v | None \<Rightarrow> formalName);
          col = (case m ''IS_IDENTITY'' of
                   Some v \<Rightarrow>
                     if v = ''YES''
                     then col\<lparr>KeyType := (KeyType col)\<lparr>Constraint := 1, KeyType.Order := 0\<rparr>\<rparr>
                     else col
                 | None \<Rightarrow> col);
          col = (case m ''COLUMN_TEXT'' of
                   Some v \<Rightarrow> route_remarks_Column (Remarks config) v col
                 | None \<Rightarrow> col);
          col = (case m ''COLUMN_HEADING'' of Some v \<Rightarrow> col\<lparr>Column.Alias := v\<rparr> | None \<Rightarrow> col)
      in (col, formalName))"

section \<open>The pipeline: table stage, correlator, sink, Run\<close>

text \<open>
  The database is represented by what it answers in one run: the error of
  \<open>sql.Open\<close> (if any), and for each of the two stages the answer to the
  column-discovery query and the answer to the generated \<open>SELECT\<close>: an error, or the
  result rows for which \<open>rows.Next()\<close> returns true, each given by its values. A row
  that the driver fails to deliver makes \<open>rows.Next()\<close> return false, which ends the
  loop as the end of the result does (neither stage reads \<open>rows.Err()\<close>); the rows of
  the model are therefore the rows delivered.

  A channel is represented by the sequence of envelopes its producer sends before it
  closes the channel. The model describes runs whose context is not cancelled while
  the stages work (\<open>main\<close> passes \<open>context.Background()\<close>, and \<open>Run\<close> cancels its own
  context only on return), so every \<open>select\<close> takes its channel branch.
\<close>

record Database =
  open_error :: "error option"
  tables_columns :: "error + (error + string) list"
  tables_rows :: "error + dbvalue list list"
  columns_columns :: "error + (error + string) list"
  columns_rows :: "error + dbvalue list list"

text \<open>The \<open>for rows.Next()\<close> loop of \<open>extractTables\<close>.\<close>

fun extractTables_loop ::
  "stdlib \<Rightarrow> (rowmap \<Rightarrow> Metadata) \<Rightarrow> Row \<Rightarrow> dbvalue list list
     \<Rightarrow> MetadataInProcess list" where
  "extractTables_loop lib toMetadata query [] = []"
| "extractTables_loop lib toMetadata query (r # rs) =
     (case Query_Scan lib query r of
        Inl e \<Rightarrow> [err_env e]
      | Inr m \<Rightarrow> data_env (toMetadata m) # extractTables_loop lib toMetadata query rs)"

definition extractTables ::
  "stdlib \<Rightarrow> (rowmap \<Rightarrow> Metadata) \<Rightarrow> Database \<Rightarrow> MetadataInProcess list" where
  "extractTables lib toMetadata db =
     (case ColumnList (tables_columns db) of
        Inl e \<Rightarrow> [err_env e]
      | Inr cols \<Rightarrow>
          (case tables_rows db of
             Inl e \<Rightarrow> [err_env e]
           | Inr rows \<Rightarrow> extractTables_loop lib toMetadata (NewRow cols) rows))"

text \<open>
  The correlator's goroutine. Its local variables \<open>meta\<close>, \<open>col\<close> and \<open>formalName\<close>, the
  rest of its channel \<open>input\<close> (here \<open>inputCh\<close>) and what it has sent on its channel
  \<open>output\<close> so far (here \<open>outputCh\<close>) make up its state. A Go receive from a closed
  channel yields the zero value.
\<close>

record Correlator =
  meta :: "Metadata option"
  col :: "Column option"
  formalName :: string
  inputCh :: "MetadataInProcess list"
  outputCh :: "MetadataInProcess list"

datatype flow = Looping Correlator | Returned "MetadataInProcess list"

definition receive :: "MetadataInProcess list \<Rightarrow> MetadataInProcess \<times> MetadataInProcess list" where
  "receive ch = (case ch of [] \<Rightarrow> (zero_MetadataInProcess, []) | mip # rest \<Rightarrow> (mip, rest))"

text \<open>
  The block \<open>if meta == nil { ... }\<close>: either the goroutine returns, having forwarded an
  error envelope, or the loop body goes on with a current table.
\<close>

definition await_table :: "Correlator \<Rightarrow> MetadataInProcess list + Metadata \<times> Correlator" where
  "await_table st =
     (case meta st of
        Some mt \<Rightarrow> Inr (mt, st)
      | None \<Rightarrow>
          (let (mip, rest) = receive (inputCh st);
               st = st\<lparr>inputCh := rest\<rparr>
           in case Err mip of
                Some e \<Rightarrow> Inl (outputCh st @ [mip])
              | None \<Rightarrow>
                  (let mt = Data mip in
                   case col st of
                     None \<Rightarrow> Inr (mt, st\<lparr>meta := Some mt\<rparr>)
                   | Some c \<Rightarrow>
                       (let st = (if FormalName mt \<noteq> formalName st
                                  then st\<lparr>outputCh := outputCh st @
                                         [err_env (CorrelationError (FormalName mt) (formalName st))]\<rparr>
                                  else st);
                            mt = mt\<lparr>Columns := Columns mt @ [c]\<rparr>
                        in Inr (mt, st\<lparr>meta := Some mt\<rparr>)))))"

text \<open>One pass through the body of the \<open>for rows.Next()\<close> loop; \<open>scanned\<close> is what
  \<open>query.Scan(rows)\<close> returns for the row at hand.\<close>

definition iteration ::
  "(rowmap \<Rightarrow> Column \<times> string) \<Rightarrow> Correlator \<Rightarrow> error + rowmap \<Rightarrow> flow" where
  "iteration toColumn st scanned =
     (case await_table st of
        Inl sent \<Rightarrow> Returned sent
      | Inr (mt, st) \<Rightarrow>
          (case scanned of
             Inl e \<Rightarrow> Returned (outputCh st @ [err_env e])
           | Inr m \<Rightarrow>
               (let (c, fn) = toColumn m;
                    st = st\<lparr>col := Some c, formalName := fn\<rparr>
                in if FormalName mt = fn
                   then Looping (st\<lparr>meta := Some (mt\<lparr>Columns := Columns mt @ [c]\<rparr>)\<rparr>)
                   else Looping (st\<lparr>outputCh := outputCh st @ [data_env mt], meta := None\<rparr>))))"

fun extractColumns_loop ::
  "(rowmap \<Rightarrow> Column \<times> string) \<Rightarrow> Correlator \<Rightarrow> (error + rowmap) list \<Rightarrow> flow" where
  "extractColumns_loop toColumn st [] = Looping st"
| "extractColumns_loop toColumn st (scanned # rest) =
     (case iteration toColumn st scanned of
        Returned sent \<Rightarrow> Returned sent
      | Looping st' \<Rightarrow> extractColumns_loop toColumn st' rest)"

definition initial :: "MetadataInProcess list \<Rightarrow> Correlator" where
  "initial ch = \<lparr>meta = None, col = None, formalName = [], inputCh = ch, outputCh = []\<rparr>"

text \<open>The final \<open>if meta != nil { ... }\<close>, after which the output channel is closed.\<close>

definition flush :: "flow \<Rightarrow> MetadataInProcess list" where
  "flush f =
     (case f of
        Returned sent \<Rightarrow> sent
      | Looping st \<Rightarrow>
          (case meta st of
             Some mt \<Rightarrow> outputCh st @ [data_env mt]
           | None \<Rightarrow> outputCh st))"

text \<open>
  The correlator proper: from the declaration of the three locals to the end of the
  goroutine, on the table channel \<open>ch\<close> and the results of scanning the column rows.
\<close>

definition correlate ::
  "(rowmap \<Rightarrow> Column \<times> string) \<Rightarrow> MetadataInProcess list \<Rightarrow> (error + rowmap) list
     \<Rightarrow> MetadataInProcess list" where
  "correlate toColumn ch scans = flush (extractColumns_loop toColumn (initial ch) scans)"

definition extractColumns ::
  "stdlib \<Rightarrow> (rowmap \<Rightarrow> Column \<times> string) \<Rightarrow> Database \<Rightarrow> MetadataInProcess list
     \<Rightarrow> MetadataInProcess list" where
  "extractColumns lib toColumn db ch =
     (case ColumnList (columns_columns db) of
        Inl e \<Rightarrow> [err_env e]
      | Inr cols \<Rightarrow>
          (case columns_rows db of
             Inl e \<Rightarrow> [err_env e]
           | Inr rows \<Rightarrow> correlate toColumn ch (map (Query_Scan lib (NewRow cols)) rows)))"

text \<open>
  \<open>writeCSV\<close>. The sink is any \<open>io.Writer\<close>: a state and a \<open>Write\<close> that maps the state
  and the bytes to the new state and the returned error. The result is the final
  state of the sink and the error \<open>writeCSV\<close> returns.
\<close>

fun writeCSV ::
  "('w \<Rightarrow> string \<Rightarrow> 'w \<times> error option) \<Rightarrow> 'w \<Rightarrow> MetadataInProcess list
     \<Rightarrow> 'w \<times> error option" where
  "writeCSV Write out [] = (out, None)"
| "writeCSV Write out (m # rest) =
     (case Write out (ToCSVString (Data m)) of
        (out', Some err) \<Rightarrow> (out', Some err)
      | (out', None) \<Rightarrow> writeCSV Write out' rest)"

text \<open>\<open>Run\<close>, the same in the three extractors up to the two mappers.\<close>

definition Run ::
  "stdlib \<Rightarrow> (rowmap \<Rightarrow> Metadata) \<Rightarrow> (rowmap \<Rightarrow> Column \<times> string) \<Rightarrow> Database
     \<Rightarrow> ('w \<Rightarrow> string \<Rightarrow> 'w \<times> error option) \<Rightarrow> 'w \<Rightarrow> 'w \<times> error option" where
  "Run lib toMetadata toColumn db Write out =
     (case open_error db of
        Some err \<Rightarrow> (out, Some err)
      | None \<Rightarrow>
          (let tableCh = extractTables lib toMetadata db;
               columnCh = extractColumns lib toColumn db tableCh
           in writeCSV Write out columnCh))"

definition Db2_Run ::
  "stdlib \<Rightarrow> Config \<Rightarrow> Database \<Rightarrow> ('w \<Rightarrow> string \<Rightarrow> 'w \<times> error option) \<Rightarrow> 'w
     \<Rightarrow> 'w \<times> error option" where
  "Db2_Run lib config = Run lib (Db2_toMetadata config) (Db2_toColumn config)"

definition ZDb2_Run ::
  "stdlib \<Rightarrow> Config \<Rightarrow> Database \<Rightarrow> ('w \<Rightarrow> string \<Rightarrow> 'w \<times> error option) \<Rightarrow> 'w
     \<Rightarrow> 'w \<times> error option" where
  "ZDb2_Run lib config = Run lib (ZDb2_toMetadata config) (ZDb2_toColumn config)"

definition IDb2_Run ::
  "stdlib \<Rightarrow> Config \<Rightarrow> Database \<Rightarrow> ('w \<Rightarrow> string \<Rightarrow> 'w \<times> error option) \<Rightarrow> 'w
     \<Rightarrow> 'w \<times> error option" where
  "IDb2_Run lib config = Run lib (IDb2_toMetadata config) (IDb2_toColumn config)"

text \<open>A sink that appends to a buffer and never fails (such as \<open>bytes.Buffer\<close>).\<close>

definition buffer_Write :: "string \<Rightarrow> string \<Rightarrow> string \<times> error option" where
  "buffer_Write buf b = (buf @ b, None)"

section \<open>Notions used to state the correlator's properties\<close>

text \<open>
  The first \<open>k\<close> envelopes a goroutine receives from the channel \<open>ch\<close> (zero values
  once the channel is closed and drained); a table without regard to its column
  list; the tables of the Data envelopes in a sequence of sent envelopes; the table
  the correlator holds.
\<close>

fun received :: "MetadataInProcess list \<Rightarrow> nat \<Rightarrow> MetadataInProcess list" where
  "received ch 0 = []"
| "received ch (Suc k) = fst (receive ch) # received (snd (receive ch)) k"

definition table_of :: "Metadata \<Rightarrow> Metadata" where
  "table_of mt = mt\<lparr>Columns := []\<rparr>"

definition sent_tables :: "MetadataInProcess list \<Rightarrow> Metadata list" where
  "sent_tables out = map (\<lambda>e. table_of (Data e)) (filter (\<lambda>e. Err e = None) out)"

definition held_table :: "Correlator \<Rightarrow> Metadata list" where
  "held_table st = (case meta st of Some mt \<Rightarrow> [table_of mt] | None \<Rightarrow> [])"

text \<open>
  A catalog given as groups, one per table: the table as the table stage sends it and
  the scanned column rows of that table. \<open>column_rows\<close> is the column stream of the
  groups and \<open>with_columns\<close> the envelope with the complete Metadata of a group;
  \<open>keyed\<close> says that every row maps to the key of its group's table, and
  \<open>populated\<close> that every group has at least one row.
\<close>

definition column_rows :: "(Metadata \<times> rowmap list) list \<Rightarrow> (error + rowmap) list" where
  "column_rows gs = concat (map (\<lambda>(t, ms). map Inr ms) gs)"

definition with_columns :: "(rowmap \<Rightarrow> Column \<times> string) \<Rightarrow> Metadata \<times> rowmap list \<Rightarrow> MetadataInProcess" where
  "with_columns toColumn g =
     (case g of (t, ms) \<Rightarrow> data_env (t\<lparr>Columns := Columns t @ map (\<lambda>m. fst (toColumn m)) ms\<rparr>))"

definition keyed :: "(rowmap \<Rightarrow> Column \<times> string) \<Rightarrow> (Metadata \<times> rowmap list) list \<Rightarrow> bool" where
  "keyed toColumn gs =
     list_all (\<lambda>(t, ms). list_all (\<lambda>m. snd (toColumn m) = FormalName t) ms) gs"

definition populated :: "(Metadata \<times> rowmap list) list \<Rightarrow> bool" where
  "populated gs = list_all (\<lambda>(t, ms). ms \<noteq> []) gs"

text \<open>
  The minimal decimal representation of a number, in the words of the
  specification: no loss (a non-empty string of decimal digits that reads back to
  the number) and no padding (it starts with the digit zero only if it is the single
  digit of zero); for a negative integer, the minus sign followed by the minimal
  representation of its magnitude.
\<close>

definition minimal_decimal_nat :: "string \<Rightarrow> nat \<Rightarrow> bool" where
  "minimal_decimal_nat ds n =
     (ds \<noteq> [] \<and> list_all is_digit ds \<and> parse_digits ds = n
      \<and> (hd ds = CHR ''0'') = (ds = ''0''))"

definition minimal_decimal_int :: "string \<Rightarrow> int \<Rightarrow> bool" where
  "minimal_decimal_int s i =
     (if i < 0
      then s \<noteq> [] \<and> hd s = CHR ''-'' \<and> minimal_decimal_nat (tl s) (nat (- i))
      else minimal_decimal_nat s (nat i))"

section \<open>Example inputs\<close>

text \<open>The Metadata of the specification's serialization example.\<close>

definition example_Metadata :: Metadata where
  "example_Metadata =
     \<lparr>Name = [], Alias = [], FormalName = ''DB2INST1.EMP'', Description = [],
      MetaType = 1, Lang = ''ja'',
      Columns = [\<lparr>Column.Name = ''ID'', Column.Alias = [], Column.Description = [],
                  Type = ''INTEGER'', Mode = 1, Column.Order = 0,
                  KeyType = \<lparr>Constraint = 1, KeyType.Order = 1\<rparr>\<rparr>]\<rparr>"

text \<open>The configuration of the repository's test \<open>TestDb2Run\<close>.\<close>

definition example_Config :: Config where
  "example_Config =
     \<lparr>Hostname = ''localhost'', Database = ''SAMPLE'', Port = 50000, UserID = ''db2inst1'',
      Password = ''password'', Config.Lang = ''ja'', Remarks = [''Alias'', ''Description''],
      CSVFile = ''testdata/mashu.csv'', SystemSchema = ''SYSCAT'',
      TargetSchema = [''DB2INST1'']\<rparr>"

text \<open>
  A database whose column-discovery query for the tables view fails, while the
  columns view has one row.
\<close>

definition failing_Database :: Database where
  "failing_Database =
     \<lparr>open_error = None,
      tables_columns = Inl (DriverError ''SQL0551N''),
      tables_rows = Inr [],
      columns_columns = Inr [Inr ''TABSCHEMA'', Inr ''TABNAME'', Inr ''COLNAME''],
      columns_rows = Inr [[VString ''DB2INST1'', VString ''EMP'', VString ''ID'']]\<rparr>"

text \<open>
  Rows of SYSCAT.TABLES and SYSCAT.COLUMNS as \<open>Query.Scan\<close> returns them: two tables of
  the schema DB2INST1 (whose name the catalog pads with a space), and two columns of
  each.
\<close>

definition row_DEPT :: rowmap where
  "row_DEPT = [''TABSCHEMA'' \<mapsto> ''DB2INST1 '', ''TABNAME'' \<mapsto> ''DEPT'']"

definition row_EMP :: rowmap where
  "row_EMP = [''TABSCHEMA'' \<mapsto> ''DB2INST1 '', ''TABNAME'' \<mapsto> ''EMP'']"

definition row_DEPTNO :: rowmap where
  "row_DEPTNO =
     [''TABSCHEMA'' \<mapsto> ''DB2INST1 '', ''TABNAME'' \<mapsto> ''DEPT'', ''COLNAME'' \<mapsto> ''DEPTNO'',
      ''TYPENAME'' \<mapsto> ''CHARACTER'', ''NULLS'' \<mapsto> ''N'']"

definition row_DEPTNAME :: rowmap where
  "row_DEPTNAME =
     [''TABSCHEMA'' \<mapsto> ''DB2INST1 '', ''TABNAME'' \<mapsto> ''DEPT'', ''COLNAME'' \<mapsto> ''DEPTNAME'',
      ''TYPENAME'' \<mapsto> ''VARCHAR'', ''NULLS'' \<mapsto> ''Y'']"

definition row_EMPNO :: rowmap where
  "row_EMPNO =
     [''TABSCHEMA'' \<mapsto> ''DB2INST1 '', ''TABNAME'' \<mapsto> ''EMP'', ''COLNAME'' \<mapsto> ''EMPNO'',
      ''TYPENAME'' \<mapsto> ''INTEGER'', ''NULLS'' \<mapsto> ''N'']"

definition row_LASTNAME :: rowmap where
  "row_LASTNAME =
     [''TABSCHEMA'' \<mapsto> ''DB2INST1 '', ''TABNAME'' \<mapsto> ''EMP'', ''COLNAME'' \<mapsto> ''LASTNAME'',
      ''TYPENAME'' \<mapsto> ''VARCHAR'', ''NULLS'' \<mapsto> ''Y'']"

text \<open>
  What the two mappers of the SYSCAT dialect make of these rows, and a third table,
  ACT, as the table mapper makes it.
\<close>

definition table_ACT :: Metadata where
  "table_ACT = zero_Metadata\<lparr>Name := ''ACT'', FormalName := ''DB2INST1.ACT'',
     MetaType := 1, Lang := ''ja''\<rparr>"

definition table_DEPT :: Metadata where
  "table_DEPT = zero_Metadata\<lparr>Name := ''DEPT'', FormalName := ''DB2INST1.DEPT'',
     MetaType := 1, Lang := ''ja''\<rparr>"

definition table_EMP :: Metadata where
  "table_EMP = zero_Metadata\<lparr>Name := ''EMP'', FormalName := ''DB2INST1.EMP'',
     MetaType := 1, Lang := ''ja''\<rparr>"

definition col_DEPTNO :: Column where
  "col_DEPTNO = zero_Column\<lparr>Column.Name := ''DEPTNO'', Type := ''CHARACTER'', Mode := 1\<rparr>"

definition col_DEPTNAME :: Column where
  "col_DEPTNAME = zero_Column\<lparr>Column.Name := ''DEPTNAME'', Type := ''VARCHAR'', Mode := 0\<rparr>"

definition col_EMPNO :: Column where
  "col_EMPNO = zero_Column\<lparr>Column.Name := ''EMPNO'', Type := ''INTEGER'', Mode := 1\<rparr>"

definition col_LASTNAME :: Column where
  "col_LASTNAME = zero_Column\<lparr>Column.Name := ''LASTNAME'', Type := ''VARCHAR'', Mode := 0\<rparr>"

section \<open>Serialization\<close>

lemma foldl_append_records:
  "foldl (\<lambda>b c. b @ f c) acc cs = acc @ concat (map f cs)"
  by (induction cs arbitrary: acc) simp_all

lemma ToCSVString_eq:
  "ToCSVString m = table_record m @ concat (map column_record (Columns m)) @ [NL]"
  by (simp add: ToCSVString_def Let_def foldl_append_records)

text \<open>
  C9. The literal example of the specification serializes to the table record
  \<open>20,,DB2INST1.EMP,,,ja,Table\<close>, the column record \<open>30,,ID,,,INTEGER,Required,Primary\<close>
  and a blank line, each ended by a newline, in that order. In general the
  serialization of a Metadata is its \<open>20,,...\<close> table record, then one \<open>30,,...\<close>
  record per column in column order, then one terminating newline (the blank line),
  and the two record kinds have the documented field layout.
\<close>

theorem C9_serialization:
  "ToCSVString example_Metadata =
     ''20,,DB2INST1.EMP,,,ja,Table'' @ [NL] @
     ''30,,ID,,,INTEGER,Required,Primary'' @ [NL] @
     [NL]
   \<and> ToCSVString m =
       table_record m @ concat (map column_record (Columns m)) @ [NL]
   \<and> table_record m =
       ''20,,'' @ FormalName m @ '','' @ Metadata.Alias m @ '','' @ Metadata.Description m
         @ '','' @ Lang m @ '','' @ MetaTypeName m @ [NL]
   \<and> column_record c =
       ''30,,'' @ Column.Name c @ '','' @ Column.Alias c @ '','' @ Column.Description c
         @ '','' @ Type c @ '','' @ ModeName c @ '','' @ ConstraintName (KeyType c) @ [NL]"
  by (simp add: ToCSVString_eq example_Metadata_def table_record_def column_record_def
      MetaTypeName_def ModeName_def ConstraintName_def)

section \<open>The sink\<close>

lemma writeCSV_ignores_Err:
  "writeCSV Write out ch = writeCSV Write out (map (\<lambda>m. m\<lparr>Err := None\<rparr>) ch)"
  by (induction ch arbitrary: out) (simp_all split: prod.splits option.splits)

lemma writeCSV_accepting:
  assumes "\<forall>out b. snd (Write out b) = None"
  shows "writeCSV Write out ch =
           (foldl (\<lambda>out m. fst (Write out (ToCSVString (Data m)))) out ch, None)"
proof (induction ch arbitrary: out)
  case Nil
  show ?case by simp
next
  case (Cons m rest)
  obtain out' r where w: "Write out (ToCSVString (Data m)) = (out', r)"
    by (cases "Write out (ToCSVString (Data m))")
  with assms have "r = None" by (metis snd_conv)
  with w Cons show ?case by simp
qed

lemma ToCSVString_zero: "ToCSVString zero_Metadata = ''20,,,,,,'' @ [NL, NL]"
  by (simp add: ToCSVString_def zero_Metadata_def table_record_def MetaTypeName_def)

text \<open>
  C10. \<open>writeCSV\<close> never looks at the \<open>Err\<close> field of an envelope: its result is the same
  as on the envelopes with every \<open>Err\<close> cleared. On a sink that accepts every write it
  writes the serialization of the \<open>Data\<close> field of each envelope, error envelopes
  included, in order, and returns nil when the channel is closed. The \<open>Data\<close> of a pure
  error envelope is the zero Metadata, whose serialization is the line \<open>20,,,,,,\<close>
  followed by a blank line.
\<close>

theorem C10_writeCSV_ignores_Err:
  "writeCSV Write out ch = writeCSV Write out (map (\<lambda>m. m\<lparr>Err := None\<rparr>) ch)
   \<and> ((\<forall>out b. snd (Write out b) = None) \<longrightarrow>
        writeCSV Write out ch =
          (foldl (\<lambda>out m. fst (Write out (ToCSVString (Data m)))) out ch, None))
   \<and> ToCSVString (Data (err_env e)) = ''20,,,,,,'' @ [NL, NL]"
  using writeCSV_ignores_Err [of Write out ch] writeCSV_accepting [of Write out ch]
  by (simp add: ToCSVString_zero err_env_def)

theorem C10_witness:
  "(\<forall>out b. snd (buffer_Write out b) = None)
   \<and> writeCSV buffer_Write [] [data_env example_Metadata, err_env (DriverError ''SQL0551N'')] =
       (''20,,DB2INST1.EMP,,,ja,Table'' @ [NL] @ ''30,,ID,,,INTEGER,Required,Primary'' @ [NL] @ [NL]
          @ ''20,,,,,,'' @ [NL, NL], None)"
proof -
  have accepting: "\<forall>out b. snd (buffer_Write out b) = None"
    by (simp add: buffer_Write_def)
  have "writeCSV buffer_Write [] [data_env example_Metadata, err_env (DriverError ''SQL0551N'')] =
      (foldl (\<lambda>out m. fst (buffer_Write out (ToCSVString (Data m)))) []
         [data_env example_Metadata, err_env (DriverError ''SQL0551N'')], None)"
    using C10_writeCSV_ignores_Err [of buffer_Write "[]"
        "[data_env example_Metadata, err_env (DriverError ''SQL0551N'')]"] accepting
    by blast
  then show ?thesis
    using accepting
    by (simp add: buffer_Write_def ToCSVString_eq err_env_def data_env_def zero_Metadata_def
        example_Metadata_def table_record_def column_record_def MetaTypeName_def ModeName_def
        ConstraintName_def)
qed

section \<open>The scanner and the row stream\<close>

lemma of_char_digit_char: "d < 10 \<Longrightarrow> (of_char (digit_char d) :: nat) = 48 + d"
  by (simp add: digit_char_def)

lemma is_digit_digit_char: "d < 10 \<Longrightarrow> is_digit (digit_char d)"
  by (simp add: is_digit_def of_char_digit_char)

lemma FormatUint10_not_Nil: "FormatUint10 n \<noteq> []"
  by (subst FormatUint10.simps) simp

lemma FormatUint10_digits: "list_all is_digit (FormatUint10 n)"
proof (induction n rule: FormatUint10.induct)
  case (1 n)
  then show ?case
    by (subst FormatUint10.simps) (simp add: is_digit_digit_char)
qed

lemma parse_digits_snoc: "parse_digits (ds @ [c]) = parse_digits ds * 10 + (of_char c - 48)"
  by (simp add: parse_digits_def)

lemma parse_digits_FormatUint10: "parse_digits (FormatUint10 n) = n"
proof (induction n rule: FormatUint10.induct)
  case (1 n)
  show ?case
  proof (cases "n < 10")
    case True
    then show ?thesis
      by (subst FormatUint10.simps) (simp add: parse_digits_def of_char_digit_char)
  next
    case False
    with 1 show ?thesis
      by (subst FormatUint10.simps) (simp add: parse_digits_snoc of_char_digit_char)
  qed
qed

lemma hd_FormatUint10: "(hd (FormatUint10 n) = CHR ''0'') = (n = 0)"
proof (induction n rule: FormatUint10.induct)
  case (1 n)
  show ?case
  proof (cases "n < 10")
    case True
    have "(of_char (digit_char n) :: nat) = of_char CHR ''0'' \<longleftrightarrow> n = 0"
      using True by (simp add: of_char_digit_char)
    then have "digit_char n = CHR ''0'' \<longleftrightarrow> n = 0"
      by (metis of_char_eq_iff)
    with True show ?thesis
      by (subst FormatUint10.simps) simp
  next
    case False
    with 1 have "hd (FormatUint10 (n div 10)) \<noteq> CHR ''0''"
      by simp
    with False show ?thesis
      by (subst FormatUint10.simps) (simp add: FormatUint10_not_Nil)
  qed
qed

lemma Atoi_sign_digits:
  assumes "ds \<noteq> []" and "list_all is_digit ds"
  shows "Atoi_sign ds = (False, ds)"
proof -
  from assms obtain c cs where ds: "ds = c # cs" and "is_digit c"
    by (cases ds) auto
  then have "c \<noteq> CHR ''-''" and "c \<noteq> CHR ''+''"
    by (auto simp add: is_digit_def)
  with ds show ?thesis by simp
qed

lemma Atoi_FormatInt10:
  assumes "- (2 ^ 63) \<le> i" and "i \<le> 2 ^ 63 - 1"
  shows "Atoi (FormatInt10 i) = Some i"
proof (cases "i < 0")
  case True
  with assms show ?thesis
    by (simp add: Atoi_def FormatInt10_def FormatUint10_not_Nil FormatUint10_digits
        parse_digits_FormatUint10)
next
  case False
  with assms show ?thesis
    by (simp add: Atoi_def FormatInt10_def Atoi_sign_digits FormatUint10_not_Nil
        FormatUint10_digits parse_digits_FormatUint10)
qed

lemma Atoi_FormatInt10_int64: "Atoi (FormatInt10 (sint (i :: 64 word))) = Some (sint i)"
proof -
  have "- (2 ^ 63) \<le> sint i" and "sint i \<le> 2 ^ 63 - 1"
    using sint_ge [of i] sint_lt [of i] by simp_all
  then show ?thesis by (rule Atoi_FormatInt10)
qed

lemma digit_char_eq: "d < 10 \<Longrightarrow> (digit_char d = c) = ((of_char c :: nat) = 48 + d)"
  using of_char_digit_char [of d] by (metis of_char_eq_iff)

lemma digit_char_of_digit: "is_digit c \<Longrightarrow> digit_char (of_char c - 48) = c"
  by (simp add: is_digit_def digit_char_def)

lemma value_of_digit: "is_digit c \<Longrightarrow> (of_char c :: nat) - 48 < 10"
  by (auto simp add: is_digit_def)

lemma FormatUint10_zero_iff: "(FormatUint10 n = ''0'') = (n = 0)"
proof
  assume "FormatUint10 n = ''0''"
  then have "hd (FormatUint10 n) = CHR ''0''" by simp
  then show "n = 0" by (simp add: hd_FormatUint10)
next
  assume "n = 0"
  then show "FormatUint10 n = ''0''"
    by (subst FormatUint10.simps) (simp add: digit_char_eq)
qed

lemma FormatUint10_parse_digits:
  assumes "ds \<noteq> []" and "list_all is_digit ds" and "(hd ds = CHR ''0'') = (ds = ''0'')"
  shows "FormatUint10 (parse_digits ds) = ds"
  using assms
proof (induction ds rule: rev_induct)
  case Nil
  then show ?case by simp
next
  case (snoc c xs)
  from snoc.prems(2) have c: "is_digit c" and xs: "list_all is_digit xs"
    by simp_all
  show ?case
  proof (cases xs)
    case Nil
    with c show ?thesis
      by (subst FormatUint10.simps)
        (simp add: parse_digits_def value_of_digit digit_char_of_digit)
  next
    case (Cons x xs')
    with snoc.prems(3) have head: "hd xs \<noteq> CHR ''0''"
      by auto
    then have "(hd xs = CHR ''0'') = (xs = ''0'')"
      by auto
    with snoc.IH xs Cons have IH: "FormatUint10 (parse_digits xs) = xs"
      by simp
    with head have "hd (FormatUint10 (parse_digits xs)) \<noteq> CHR ''0''"
      by simp
    then have positive: "parse_digits xs \<noteq> 0"
      by (simp add: hd_FormatUint10)
    let ?n = "parse_digits xs * 10 + (of_char c - 48)"
    from positive have "\<not> ?n < 10" by simp
    moreover from value_of_digit [OF c] have "?n div 10 = parse_digits xs"
      and "?n mod 10 = of_char c - 48"
      by simp_all
    ultimately have "FormatUint10 ?n = FormatUint10 (parse_digits xs) @ [digit_char (of_char c - 48)]"
      by (subst FormatUint10.simps) simp
    with IH c show ?thesis
      by (simp add: parse_digits_snoc digit_char_of_digit)
  qed
qed

lemma minimal_decimal_nat_iff: "minimal_decimal_nat ds n = (ds = FormatUint10 n)"
proof
  assume "minimal_decimal_nat ds n"
  then show "ds = FormatUint10 n"
    using FormatUint10_parse_digits [of ds] by (auto simp add: minimal_decimal_nat_def)
next
  assume "ds = FormatUint10 n"
  then show "minimal_decimal_nat ds n"
    by (simp add: minimal_decimal_nat_def FormatUint10_not_Nil FormatUint10_digits
        parse_digits_FormatUint10 hd_FormatUint10 FormatUint10_zero_iff)
qed

lemma minimal_decimal_int_iff: "minimal_decimal_int s i = (s = FormatInt10 i)"
proof (cases "i < 0")
  case True
  then show ?thesis
    by (cases s) (auto simp add: minimal_decimal_int_def FormatInt10_def minimal_decimal_nat_iff)
next
  case False
  then show ?thesis
    by (simp add: minimal_decimal_int_def FormatInt10_def minimal_decimal_nat_iff)
qed

lemma FormatInt10_examples:
  "FormatInt10 (- 120) = ''-120''"
  "FormatInt10 0 = ''0''"
  "FormatUint10 2024 = ''2024''"
  by (simp_all add: FormatInt10_def FormatUint10.simps digit_char_eq)

text \<open>
  C7. Scanning into a non-nil destination: null gives the empty string; a string and
  a byte sequence are kept verbatim; a timestamp is formatted by \<open>Time.Format\<close> with
  the layout \<open>2006-01-02T15:04:05.999999999Z07:00\<close> (RFC 3339 with nanoseconds); a
  signed integer gives exactly its minimal decimal representation (the one string
  that is a minus sign for a negative value followed by digits without padding that
  read back to the magnitude), which \<open>Atoi\<close> reads back to the same value, for
  instance \<open>-120\<close> and \<open>0\<close>; an unsigned integer gives exactly its minimal decimal
  representation, for instance \<open>2024\<close>; a float gives \<open>FormatFloat(f, 'g', -1, 64)\<close>,
  or \<open>FormatFloat(float64(f), 'g', -1, 32)\<close> for a 32-bit float, the shortest
  representation that reads back to the same float; a boolean gives \<open>true\<close> or
  \<open>false\<close>; any other value gives its \<open>%v\<close> rendering; no value makes the scan
  return an error; only the nil destination does. The renderings of timestamps,
  floats and other values are those of Go's standard library, a parameter of the
  model, applied to the arguments shown.
\<close>

theorem C7_scanner_rules:
  "ColumnValue_Scan lib (Some old) VNil = Inr []
   \<and> ColumnValue_Scan lib (Some old) (VString s) = Inr s
   \<and> ColumnValue_Scan lib (Some old) (VBytes s) = Inr s
   \<and> ColumnValue_Scan lib (Some old) (VTime t) =
       Inr (time_Format lib t ''2006-01-02T15:04:05.999999999Z07:00'')
   \<and> ColumnValue_Scan lib (Some old) (VInt i) = Inr (FormatInt10 (sint i))
   \<and> (ColumnValue_Scan lib (Some old) (VInt i) = Inr r) = minimal_decimal_int r (sint i)
   \<and> Atoi (FormatInt10 (sint i)) = Some (sint i)
   \<and> ColumnValue_Scan lib (Some old) (VInt (- 120)) = Inr ''-120''
   \<and> ColumnValue_Scan lib (Some old) (VInt 0) = Inr ''0''
   \<and> ColumnValue_Scan lib (Some old) (VUint u) = Inr (FormatUint10 (unat u))
   \<and> (ColumnValue_Scan lib (Some old) (VUint u) = Inr r) = minimal_decimal_nat r (unat u)
   \<and> ColumnValue_Scan lib (Some old) (VUint 2024) = Inr ''2024''
   \<and> FormatUint10 n \<noteq> [] \<and> list_all is_digit (FormatUint10 n)
   \<and> parse_digits (FormatUint10 n) = n
   \<and> (hd (FormatUint10 n) = CHR ''0'') = (n = 0)
   \<and> ColumnValue_Scan lib (Some old) (VFloat64 f) =
       Inr (strconv_FormatFloat lib f CHR ''g'' (- 1) 64)
   \<and> ColumnValue_Scan lib (Some old) (VFloat32 g) =
       Inr (strconv_FormatFloat lib (float32_to_float64 lib g) CHR ''g'' (- 1) 32)
   \<and> ColumnValue_Scan lib (Some old) (VBool True) = Inr ''true''
   \<and> ColumnValue_Scan lib (Some old) (VBool False) = Inr ''false''
   \<and> ColumnValue_Scan lib (Some old) (VOther x) = Inr (fmt_Sprint_v lib x)
   \<and> (\<forall>v. \<exists>s. ColumnValue_Scan lib (Some old) v = Inr s)
   \<and> ColumnValue_Scan lib None v = Inl NilDestination"
proof -
  have total: "\<exists>s. ColumnValue_Scan lib (Some old) v = Inr s" for v
    by (cases v) (simp_all add: ColumnValue_Scan_def)
  have signed: "(ColumnValue_Scan lib (Some old) (VInt i) = Inr r) = minimal_decimal_int r (sint i)"
    by (auto simp add: ColumnValue_Scan_def minimal_decimal_int_iff)
  have unsigned: "(ColumnValue_Scan lib (Some old) (VUint u) = Inr r) = minimal_decimal_nat r (unat u)"
    by (auto simp add: ColumnValue_Scan_def minimal_decimal_nat_iff)
  have examples: "ColumnValue_Scan lib (Some old) (VInt (- 120)) = Inr ''-120''"
    "ColumnValue_Scan lib (Some old) (VInt 0) = Inr ''0''"
    "ColumnValue_Scan lib (Some old) (VUint 2024) = Inr ''2024''"
    by (simp_all add: ColumnValue_Scan_def FormatInt10_examples)
  have rest: "ColumnValue_Scan lib (Some old) VNil = Inr []
   \<and> ColumnValue_Scan lib (Some old) (VString s) = Inr s
   \<and> ColumnValue_Scan lib (Some old) (VBytes s) = Inr s
   \<and> ColumnValue_Scan lib (Some old) (VTime t) =
       Inr (time_Format lib t ''2006-01-02T15:04:05.999999999Z07:00'')
   \<and> ColumnValue_Scan lib (Some old) (VInt i) = Inr (FormatInt10 (sint i))
   \<and> ColumnValue_Scan lib (Some old) (VUint u) = Inr (FormatUint10 (unat u))
   \<and> ColumnValue_Scan lib (Some old) (VFloat64 f) =
       Inr (strconv_FormatFloat lib f CHR ''g'' (- 1) 64)
   \<and> ColumnValue_Scan lib (Some old) (VFloat32 g) =
       Inr (strconv_FormatFloat lib (float32_to_float64 lib g) CHR ''g'' (- 1) 32)
   \<and> ColumnValue_Scan lib (Some old) (VBool True) = Inr ''true''
   \<and> ColumnValue_Scan lib (Some old) (VBool False) = Inr ''false''
   \<and> ColumnValue_Scan lib (Some old) (VOther x) = Inr (fmt_Sprint_v lib x)
   \<and> ColumnValue_Scan lib None v = Inl NilDestination"
    by (simp add: ColumnValue_Scan_def FormatBool_def RFC3339Nano_def)
  from total signed unsigned examples rest show ?thesis
    by (simp only: Atoi_FormatInt10_int64 FormatUint10_not_Nil FormatUint10_digits
        parse_digits_FormatUint10 hd_FormatUint10 simp_thms)
qed

lemma ColumnValue_Scan_total: "\<exists>s. ColumnValue_Scan lib (Some old) v = Inr s"
  by (cases v) (simp_all add: ColumnValue_Scan_def)

lemma scan_all_total:
  assumes "length ds = length xs"
  shows "\<exists>vs. scan_all lib ds xs = Inr vs \<and> length vs = length xs
    \<and> (\<forall>i<length xs. ColumnValue_Scan lib (Some (ds ! i)) (xs ! i) = Inr (vs ! i))"
  using assms
proof (induction ds xs rule: list_induct2)
  case Nil
  show ?case by simp
next
  case (Cons d ds x xs)
  from ColumnValue_Scan_total obtain v where v: "ColumnValue_Scan lib (Some d) x = Inr v"
    by blast
  from Cons.IH obtain vs where vs: "scan_all lib ds xs = Inr vs" "length vs = length xs"
    and each: "\<forall>i<length xs. ColumnValue_Scan lib (Some (ds ! i)) (xs ! i) = Inr (vs ! i)"
    by blast
  have "\<forall>i<length (x # xs).
      ColumnValue_Scan lib (Some ((d # ds) ! i)) ((x # xs) ! i) = Inr ((v # vs) ! i)"
    using v each by (auto simp add: nth_Cons split: nat.splits)
  with v vs show ?case by auto
qed

lemma Row_Map_fold_other:
  "n \<notin> set ns \<Longrightarrow>
   foldl (\<lambda>m (name, v). if v \<noteq> [] then m(name \<mapsto> v) else m) m0 (zip ns vs) n = m0 n"
  by (induction ns arbitrary: vs m0) (auto simp add: zip_Cons1 split: list.splits)

lemma Row_Map_fold_nth:
  assumes "distinct ns" and "length vs = length ns" and "i < length ns"
  shows "foldl (\<lambda>m (name, v). if v \<noteq> [] then m(name \<mapsto> v) else m) m0 (zip ns vs) (ns ! i) =
    (if vs ! i \<noteq> [] then Some (vs ! i) else m0 (ns ! i))"
  using assms
proof (induction ns arbitrary: vs m0 i)
  case Nil
  then show ?case by simp
next
  case (Cons n ns)
  from Cons.prems(2) obtain v vs' where vs: "vs = v # vs'" and len: "length vs' = length ns"
    by (cases vs) auto
  show ?case
  proof (cases i)
    case 0
    with Cons.prems(1) vs show ?thesis
      by (simp add: Row_Map_fold_other)
  next
    case (Suc j)
    with Cons.prems have j: "j < length ns" and "distinct ns" and "ns ! j \<noteq> n"
      by auto
    with Cons.IH [OF _ len j] vs Suc show ?thesis
      by simp
  qed
qed

lemma Row_Map_dom:
  "dom (foldl (\<lambda>m (name, v). if v \<noteq> [] then m(name \<mapsto> v) else m) m0 (zip ns vs))
     \<subseteq> dom m0 \<union> set ns"
proof
  fix n
  assume key: "n \<in> dom (foldl (\<lambda>m (name, v). if v \<noteq> [] then m(name \<mapsto> v) else m) m0 (zip ns vs))"
  show "n \<in> dom m0 \<union> set ns"
  proof (cases "n \<in> set ns")
    case True
    then show ?thesis by simp
  next
    case False
    from Row_Map_fold_other [OF False, of m0 vs] key have "n \<in> dom m0"
      by (simp add: dom_def)
    then show ?thesis by simp
  qed
qed

lemma Row_Map_fold_dom:
  assumes "length vs = length ns"
  shows "(n \<in> dom (foldl (\<lambda>m (name, v). if v \<noteq> [] then m(name \<mapsto> v) else m) m0 (zip ns vs))) =
    (n \<in> dom m0 \<or> (\<exists>i<length ns. ns ! i = n \<and> vs ! i \<noteq> []))"
  using assms
proof (induction ns arbitrary: vs m0)
  case Nil
  then show ?case by simp
next
  case (Cons a ns)
  from Cons.prems obtain v vs' where vs: "vs = v # vs'" and len: "length vs' = length ns"
    by (cases vs) auto
  show ?case
    unfolding vs using Cons.IH [OF len]
    by (auto simp add: Ex_less_Suc2)
qed

text \<open>
  C8. For a delivered row with one value per resolved column name, \<open>Query.Scan\<close>
  succeeds and returns a mapping whose keys are exactly the names that have a value
  with a non-empty canonical string. For resolved names that are pairwise distinct,
  as the column names of one catalog view are, a name is a key if and only if the
  canonical string of its value is not empty; the key is then bound to that string;
  and the name of a null value is not a key.
\<close>

theorem C8_empty_values_omitted:
  assumes "length vals = length cols"
  shows "\<exists>m vs. Query_Scan lib (NewRow cols) vals = Inr m
    \<and> length vs = length cols
    \<and> (\<forall>i<length cols. ColumnValue_Scan lib (Some []) (vals ! i) = Inr (vs ! i))
    \<and> (\<forall>n. (n \<in> dom m) = (\<exists>i<length cols. cols ! i = n \<and> vs ! i \<noteq> []))
    \<and> (distinct cols \<longrightarrow>
         (\<forall>i<length cols.
            (cols ! i \<in> dom m) = (vs ! i \<noteq> [])
            \<and> (vs ! i \<noteq> [] \<longrightarrow> m (cols ! i) = Some (vs ! i))
            \<and> (vals ! i = VNil \<longrightarrow> cols ! i \<notin> dom m)))"
proof -
  let ?ds = "replicate (length cols) []"
  from assms have "length ?ds = length vals" by simp
  from scan_all_total [OF this, of lib] assms obtain vs
    where scanned: "scan_all lib ?ds vals = Inr vs" and len: "length vs = length cols"
      and each: "\<forall>i<length cols. ColumnValue_Scan lib (Some []) (vals ! i) = Inr (vs ! i)"
    by auto
  let ?m = "Row_Map \<lparr>names = cols, row_values = vs\<rparr>"
  from scanned assms have result: "Query_Scan lib (NewRow cols) vals = Inr ?m"
    by (simp add: Query_Scan_def sql_Rows_Scan_def NewRow_def)
  have keys: "\<forall>n. (n \<in> dom ?m) = (\<exists>i<length cols. cols ! i = n \<and> vs ! i \<noteq> [])"
    using Row_Map_fold_dom [OF len, of _ Map.empty] by (simp add: Row_Map_def)
  have entry: "?m (cols ! i) = (if vs ! i \<noteq> [] then Some (vs ! i) else None)"
    if "distinct cols" and "i < length cols" for i
    using Row_Map_fold_nth [OF that(1) len that(2), of Map.empty]
    by (simp add: Row_Map_def)
  have null: "vs ! i = []" if "i < length cols" and "vals ! i = VNil" for i
  proof -
    from each that have "ColumnValue_Scan lib (Some []) VNil = Inr (vs ! i)"
      by auto
    then show ?thesis
      by (simp add: ColumnValue_Scan_def)
  qed
  have "distinct cols \<longrightarrow>
      (\<forall>i<length cols.
         (cols ! i \<in> dom ?m) = (vs ! i \<noteq> [])
         \<and> (vs ! i \<noteq> [] \<longrightarrow> ?m (cols ! i) = Some (vs ! i))
         \<and> (vals ! i = VNil \<longrightarrow> cols ! i \<notin> dom ?m))"
    using entry null by (auto simp add: dom_def)
  with result len each keys show ?thesis by blast
qed

theorem C8_witness:
  "length [VString ''DB2INST1'', VString ''EMP'', VNil] =
       length [''TABSCHEMA'', ''TABNAME'', ''REMARKS'']
   \<and> distinct [''TABSCHEMA'', ''TABNAME'', ''REMARKS'']
   \<and> (\<forall>lib. \<exists>m. Query_Scan lib (NewRow [''TABSCHEMA'', ''TABNAME'', ''REMARKS''])
         [VString ''DB2INST1'', VString ''EMP'', VNil] = Inr m
       \<and> m ''TABNAME'' = Some ''EMP'' \<and> ''REMARKS'' \<notin> dom m)"
proof -
  let ?cols = "[''TABSCHEMA'', ''TABNAME'', ''REMARKS'']"
  let ?vals = "[VString ''DB2INST1'', VString ''EMP'', VNil]"
  have d: "distinct ?cols" and l: "length ?vals = length ?cols"
    by simp_all
  have "\<exists>m. Query_Scan lib (NewRow ?cols) ?vals = Inr m
      \<and> m ''TABNAME'' = Some ''EMP'' \<and> ''REMARKS'' \<notin> dom m" for lib
  proof -
    from C8_empty_values_omitted [OF l, of lib] d obtain m vs
      where result: "Query_Scan lib (NewRow ?cols) ?vals = Inr m"
        and scanned: "\<forall>i<length ?cols.
          ColumnValue_Scan lib (Some []) (?vals ! i) = Inr (vs ! i)"
        and each: "\<forall>i<length ?cols.
          (?cols ! i \<in> dom m) = (vs ! i \<noteq> [])
          \<and> (vs ! i \<noteq> [] \<longrightarrow> m (?cols ! i) = Some (vs ! i))
          \<and> (?vals ! i = VNil \<longrightarrow> ?cols ! i \<notin> dom m)"
      by blast
    from scanned [rule_format, of 1] each [rule_format, of 1]
    have "m ''TABNAME'' = Some ''EMP''"
      by (auto simp add: ColumnValue_Scan_def)
    moreover from each [rule_format, of 2] have "''REMARKS'' \<notin> dom m"
      by auto
    ultimately show ?thesis using result by blast
  qed
  with d l show ?thesis by blast
qed

section \<open>The dialect mappers\<close>

lemma route_remarks_Metadata_fields:
  "Metadata.Alias (route_remarks_Metadata remarks v t) =
     (if ''Alias'' \<in> set remarks then v else Metadata.Alias t)"
  "Metadata.Description (route_remarks_Metadata remarks v t) =
     (if ''Description'' \<in> set remarks then v else Metadata.Description t)"
proof -
  have "Metadata.Alias (route_remarks_Metadata remarks v t) =
      (if ''Alias'' \<in> set remarks then v else Metadata.Alias t)
    \<and> Metadata.Description (route_remarks_Metadata remarks v t) =
      (if ''Description'' \<in> set remarks then v else Metadata.Description t)"
    unfolding route_remarks_Metadata_def
    by (induction remarks arbitrary: t) auto
  then show "Metadata.Alias (route_remarks_Metadata remarks v t) =
      (if ''Alias'' \<in> set remarks then v else Metadata.Alias t)"
    and "Metadata.Description (route_remarks_Metadata remarks v t) =
      (if ''Description'' \<in> set remarks then v else Metadata.Description t)"
    by simp_all
qed

text \<open>The table mappers of the SYSIBM and QSYS2 dialects route the remark of a row.\<close>

lemma ZDb2_toMetadata_routes_remarks:
  assumes "m ''REMARKS'' = Some v"
  shows "Metadata.Alias (ZDb2_toMetadata config m) =
      (if ''Alias'' \<in> set (Remarks config) then v else [])"
    and "Metadata.Description (ZDb2_toMetadata config m) =
      (if ''Description'' \<in> set (Remarks config) then v else [])"
  using assms
  by (simp_all add: ZDb2_toMetadata_def route_remarks_Metadata_fields zero_Metadata_def Let_def
      split: option.splits)

lemma IDb2_toMetadata_routes_remarks:
  assumes "m ''LONG_COMMENT'' = Some v"
  shows "Metadata.Alias (IDb2_toMetadata config m) =
      (if ''Alias'' \<in> set (Remarks config) then v else [])"
    and "Metadata.Description (IDb2_toMetadata config m) =
      (if ''Description'' \<in> set (Remarks config) then v else [])"
  using assms
  by (simp_all add: IDb2_toMetadata_def route_remarks_Metadata_fields zero_Metadata_def Let_def
      split: option.splits)

text \<open>
  C6. \<open>Db2Extractor.toMetadata\<close> never routes a remark: whatever the row and the
  configuration, Alias and Description stay empty, also for a row with \<open>REMARKS\<close> under
  a configuration that routes remarks to both, where \<open>ZDb2Extractor.toMetadata\<close>
  sets the alias.
\<close>

theorem C6_Db2_toMetadata_ignores_remarks:
  "Metadata.Alias (Db2_toMetadata config m) = []
   \<and> Metadata.Description (Db2_toMetadata config m) = []
   \<and> Metadata.Alias (ZDb2_toMetadata example_Config [''NAME'' \<mapsto> ''EMP'', ''CREATOR'' \<mapsto> ''DB2INST1'', ''REMARKS'' \<mapsto> ''Employees'']) = ''Employees''
   \<and> Metadata.Alias (Db2_toMetadata example_Config [''TABNAME'' \<mapsto> ''EMP'', ''TABSCHEMA'' \<mapsto> ''DB2INST1'', ''REMARKS'' \<mapsto> ''Employees'']) = []"
  by (simp add: Db2_toMetadata_def ZDb2_toMetadata_def route_remarks_Metadata_def zero_Metadata_def example_Config_def Let_def split: option.splits)

text \<open>The example rows under the two mappers of the SYSCAT dialect.\<close>

lemma TrimSpace_DB2INST1 [simp]: "TrimSpace ''DB2INST1 '' = ''DB2INST1''"
  by (simp add: TrimSpace_def TrimLeft.simps White_Space_def)

lemma toMetadata_DEPT: "Db2_toMetadata example_Config row_DEPT = table_DEPT"
  by (simp add: Db2_toMetadata_def row_DEPT_def table_DEPT_def example_Config_def
      zero_Metadata_def)

lemma toMetadata_EMP: "Db2_toMetadata example_Config row_EMP = table_EMP"
  by (simp add: Db2_toMetadata_def row_EMP_def table_EMP_def example_Config_def
      zero_Metadata_def)

lemma toColumn_DEPTNO: "Db2_toColumn example_Config row_DEPTNO = (col_DEPTNO, ''DB2INST1.DEPT'')"
  by (simp add: Db2_toColumn_def row_DEPTNO_def col_DEPTNO_def zero_Column_def)

lemma toColumn_DEPTNAME:
  "Db2_toColumn example_Config row_DEPTNAME = (col_DEPTNAME, ''DB2INST1.DEPT'')"
  by (simp add: Db2_toColumn_def row_DEPTNAME_def col_DEPTNAME_def zero_Column_def)

lemma toColumn_EMPNO: "Db2_toColumn example_Config row_EMPNO = (col_EMPNO, ''DB2INST1.EMP'')"
  by (simp add: Db2_toColumn_def row_EMPNO_def col_EMPNO_def zero_Column_def)

lemma toColumn_LASTNAME:
  "Db2_toColumn example_Config row_LASTNAME = (col_LASTNAME, ''DB2INST1.EMP'')"
  by (simp add: Db2_toColumn_def row_LASTNAME_def col_LASTNAME_def zero_Column_def)

lemmas example_rows = toColumn_DEPTNO toColumn_DEPTNAME toColumn_EMPNO toColumn_LASTNAME

lemma FormalName_examples [simp]:
  "FormalName table_DEPT = ''DB2INST1.DEPT''" "FormalName table_EMP = ''DB2INST1.EMP''"
  "FormalName table_ACT = ''DB2INST1.ACT''"
  "Columns table_DEPT = []" "Columns table_EMP = []" "Columns table_ACT = []"
  by (simp_all add: table_DEPT_def table_EMP_def table_ACT_def zero_Metadata_def)

section \<open>The correlator\<close>




lemma await_table_held:
  "await_table \<lparr>meta = Some mt, col = c0, formalName = f0, inputCh = ch, outputCh = out\<rparr> =
     Inr (mt, \<lparr>meta = Some mt, col = c0, formalName = f0, inputCh = ch, outputCh = out\<rparr>)"
  by (simp add: await_table_def)

lemma await_table_carry:
  "await_table \<lparr>meta = None, col = Some c, formalName = FormalName t,
       inputCh = data_env t # ch, outputCh = out\<rparr> =
     Inr (t\<lparr>Columns := Columns t @ [c]\<rparr>,
          \<lparr>meta = Some (t\<lparr>Columns := Columns t @ [c]\<rparr>), col = Some c,
            formalName = FormalName t, inputCh = ch, outputCh = out\<rparr>)"
  by (simp add: await_table_def receive_def data_env_def Let_def)

lemma await_table_first:
  "await_table \<lparr>meta = None, col = None, formalName = f0,
       inputCh = data_env t # ch, outputCh = out\<rparr> =
     Inr (t, \<lparr>meta = Some t, col = None, formalName = f0, inputCh = ch, outputCh = out\<rparr>)"
  by (simp add: await_table_def receive_def data_env_def Let_def)

lemma iteration_held:
  "iteration tc \<lparr>meta = Some mt, col = c0, formalName = f0, inputCh = ch, outputCh = out\<rparr> (Inr m) =
     (if FormalName mt = snd (tc m)
      then Looping \<lparr>meta = Some (mt\<lparr>Columns := Columns mt @ [fst (tc m)]\<rparr>),
             col = Some (fst (tc m)), formalName = snd (tc m), inputCh = ch, outputCh = out\<rparr>
      else Looping \<lparr>meta = None, col = Some (fst (tc m)), formalName = snd (tc m),
             inputCh = ch, outputCh = out @ [data_env mt]\<rparr>)"
  by (simp add: iteration_def await_table_held Let_def split: prod.splits)

lemma iteration_carry:
  "iteration tc \<lparr>meta = None, col = Some c, formalName = FormalName t,
       inputCh = data_env t # ch, outputCh = out\<rparr> scanned =
   iteration tc \<lparr>meta = Some (t\<lparr>Columns := Columns t @ [c]\<rparr>), col = Some c,
       formalName = FormalName t, inputCh = ch, outputCh = out\<rparr> scanned"
  by (simp only: iteration_def await_table_held await_table_carry)

lemma iteration_first:
  "iteration tc \<lparr>meta = None, col = None, formalName = f0,
       inputCh = data_env t # ch, outputCh = out\<rparr> scanned =
   iteration tc \<lparr>meta = Some t, col = None, formalName = f0, inputCh = ch, outputCh = out\<rparr> scanned"
  by (simp only: iteration_def await_table_held await_table_first)

lemma loop_accumulate:
  assumes "list_all (\<lambda>m. snd (tc m) = FormalName mt) ms"
  shows "\<exists>c1 f1. extractColumns_loop tc
      \<lparr>meta = Some mt, col = c0, formalName = f0, inputCh = ch, outputCh = out\<rparr>
      (map Inr ms @ rest) =
    extractColumns_loop tc
      \<lparr>meta = Some (mt\<lparr>Columns := Columns mt @ map (\<lambda>m. fst (tc m)) ms\<rparr>), col = c1,
        formalName = f1, inputCh = ch, outputCh = out\<rparr> rest"
  using assms
proof (induction ms arbitrary: mt c0 f0)
  case Nil
  show ?case by auto
next
  case (Cons m ms)
  let ?mt = "mt\<lparr>Columns := Columns mt @ [fst (tc m)]\<rparr>"
  from Cons.prems have key: "FormalName mt = snd (tc m)"
    and rest: "list_all (\<lambda>m. snd (tc m) = FormalName ?mt) ms"
    by simp_all
  from Cons.IH [OF rest, of "Some (fst (tc m))" "snd (tc m)"] key
  show ?case by (simp add: iteration_held)
qed


lemma loop_carry:
  "extractColumns_loop tc \<lparr>meta = None, col = Some c, formalName = FormalName t,
       inputCh = data_env t # ch, outputCh = out\<rparr> (r # rest) =
   extractColumns_loop tc \<lparr>meta = Some (t\<lparr>Columns := Columns t @ [c]\<rparr>), col = Some c,
       formalName = FormalName t, inputCh = ch, outputCh = out\<rparr> (r # rest)"
  by (simp add: iteration_carry)

lemma loop_first:
  "extractColumns_loop tc \<lparr>meta = None, col = None, formalName = f0,
       inputCh = data_env t # ch, outputCh = out\<rparr> (r # rest) =
   extractColumns_loop tc \<lparr>meta = Some t, col = None, formalName = f0, inputCh = ch,
       outputCh = out\<rparr> (r # rest)"
  by (simp add: iteration_first)

lemma correlate_held:
  assumes "list_all (\<lambda>m. snd (tc m) = FormalName mt) ms"
    and "keyed tc gs \<and> populated gs"
    and "distinct (FormalName mt # map (\<lambda>g. FormalName (fst g)) gs)"
    and "gs \<noteq> [] \<longrightarrow> 2 \<le> length (snd (last gs))"
  shows "flush (extractColumns_loop tc
      \<lparr>meta = Some mt, col = c0, formalName = f0,
        inputCh = map (\<lambda>g. data_env (fst g)) gs, outputCh = out\<rparr>
      (map Inr ms @ column_rows gs)) =
    out @ with_columns tc (mt, ms) # map (with_columns tc) gs"
  using assms
proof (induction gs arbitrary: mt ms c0 f0 out)
  case Nil
  from loop_accumulate [OF Nil.prems(1), of c0 f0 "[]" out "[]"]
  show ?case by (auto simp add: flush_def with_columns_def column_rows_def)
next
  case (Cons g gs)
  obtain t ms' where g: "g = (t, ms')" by (cases g)
  with Cons.prems(2) obtain m1 ms1 where ms': "ms' = m1 # ms1"
    by (cases ms') (simp_all add: populated_def)
  let ?mt = "mt\<lparr>Columns := Columns mt @ map (\<lambda>m. fst (tc m)) ms\<rparr>"
  let ?t = "t\<lparr>Columns := Columns t @ [fst (tc m1)]\<rparr>"
  let ?ch = "map (\<lambda>g. data_env (fst g)) gs"
  let ?R = "map Inr ms1 @ column_rows gs"
  from Cons.prems(2) g ms' have key1: "snd (tc m1) = FormalName t"
    and keys1: "list_all (\<lambda>m. snd (tc m) = FormalName ?t) ms1"
    and grouped: "keyed tc gs \<and> populated gs"
    by (simp_all add: keyed_def populated_def)
  from Cons.prems(3) g have differ: "FormalName mt \<noteq> FormalName t"
    and dist: "distinct (FormalName ?t # map (\<lambda>g. FormalName (fst g)) gs)"
    by simp_all
  have rows: "map Inr ms @ column_rows (g # gs) = map Inr ms @ Inr m1 # ?R"
    by (simp add: column_rows_def g ms')
  have more: "?R \<noteq> []"
  proof (cases ms1)
    case Nil
    with Cons.prems(4) g ms' have "gs \<noteq> []" by auto
    then obtain g' gs' where "gs = g' # gs'" by (cases gs) auto
    with grouped show ?thesis
      by (cases g') (auto simp add: populated_def column_rows_def)
  qed simp
  then obtain r R' where R: "?R = r # R'" by (cases ?R) auto
  from Cons.prems(4) have last: "gs \<noteq> [] \<longrightarrow> 2 \<le> length (snd (last gs))" by auto
  from loop_accumulate [OF Cons.prems(1), of c0 f0 "data_env t # ?ch" out "Inr m1 # ?R"]
  obtain c1 f1 where "extractColumns_loop tc
      \<lparr>meta = Some mt, col = c0, formalName = f0, inputCh = data_env t # ?ch, outputCh = out\<rparr>
      (map Inr ms @ Inr m1 # ?R) =
    extractColumns_loop tc
      \<lparr>meta = Some ?mt, col = c1, formalName = f1, inputCh = data_env t # ?ch, outputCh = out\<rparr>
      (Inr m1 # ?R)"
    by blast
  also have "\<dots> = extractColumns_loop tc
      \<lparr>meta = None, col = Some (fst (tc m1)), formalName = FormalName t,
        inputCh = data_env t # ?ch, outputCh = out @ [data_env ?mt]\<rparr> ?R"
    using differ key1 by (simp add: iteration_held)
  also have "\<dots> = extractColumns_loop tc
      \<lparr>meta = Some ?t, col = Some (fst (tc m1)), formalName = FormalName t,
        inputCh = ?ch, outputCh = out @ [data_env ?mt]\<rparr> ?R"
    unfolding R by (rule loop_carry)
  finally have "flush (extractColumns_loop tc
      \<lparr>meta = Some mt, col = c0, formalName = f0, inputCh = data_env t # ?ch, outputCh = out\<rparr>
      (map Inr ms @ Inr m1 # ?R)) =
    (out @ [data_env ?mt]) @ with_columns tc (?t, ms1) # map (with_columns tc) gs"
    using Cons.IH [OF keys1 grouped dist last] by simp
  moreover have "with_columns tc (mt, ms) = data_env ?mt"
    and "with_columns tc (?t, ms1) = with_columns tc g"
    by (simp_all add: with_columns_def g ms')
  moreover have "fst g = t"
    by (simp add: g)
  ultimately show ?case
    by (simp add: rows)
qed

text \<open>
  C2 (amended). Let the table sequence have pairwise distinct qualified keys, and let
  the column sequence list the rows table by table in the same order, each row
  mapping to the key of its table. Let every table after the first have at least one
  row, and let the last table have at least one row, and at least two when it is not
  the only table. Then the correlator sends exactly one Metadata per table, in the
  order of the table sequence, each with the columns of its rows appended in arrival
  order, and nothing else. In particular a first table with zero matching rows that
  other tables follow is sent with its column sequence unchanged (empty), in its
  position.
\<close>

theorem C2_amended:
  assumes "keyed tc gs"
    and "populated (tl gs)"
    and "distinct (map (\<lambda>g. FormalName (fst g)) gs)"
    and "gs \<noteq> [] \<longrightarrow> snd (last gs) \<noteq> []"
    and "2 \<le> length gs \<longrightarrow> 2 \<le> length (snd (last gs))"
  shows "correlate tc (map (\<lambda>g. data_env (fst g)) gs) (column_rows gs) =
    map (with_columns tc) gs"
proof (cases gs)
  case Nil
  then show ?thesis
    by (simp add: correlate_def flush_def initial_def column_rows_def)
next
  case (Cons g gs')
  obtain t ms where g: "g = (t, ms)" by (cases g)
  from assms(1,2) Cons g have keys: "list_all (\<lambda>m. snd (tc m) = FormalName t) ms"
    and grouped: "keyed tc gs' \<and> populated gs'"
    by (simp_all add: keyed_def)
  from assms(3) Cons g have dist: "distinct (FormalName t # map (\<lambda>g. FormalName (fst g)) gs')"
    by simp
  from assms(5) Cons have last: "gs' \<noteq> [] \<longrightarrow> 2 \<le> length (snd (last gs'))"
    by (cases gs') auto
  have rows: "column_rows gs = map Inr ms @ column_rows gs'"
    by (simp add: column_rows_def Cons g)
  have "map Inr ms @ column_rows gs' \<noteq> []"
  proof (cases ms)
    case Nil
    with assms(4) Cons g have "gs' \<noteq> []" by auto
    then obtain g' gs'' where "gs' = g' # gs''" by (cases gs') auto
    with grouped show ?thesis
      by (cases g') (auto simp add: populated_def column_rows_def)
  qed simp
  then obtain r R where R: "map Inr ms @ column_rows gs' = r # R"
    by (cases "map Inr ms @ column_rows gs'") auto
  have "correlate tc (map (\<lambda>g. data_env (fst g)) gs) (column_rows gs) =
    flush (extractColumns_loop tc
      \<lparr>meta = None, col = None, formalName = [],
        inputCh = data_env t # map (\<lambda>g. data_env (fst g)) gs', outputCh = []\<rparr>
      (r # R))"
    unfolding correlate_def initial_def rows R [symmetric] by (simp add: Cons g)
  also have "\<dots> = flush (extractColumns_loop tc
      \<lparr>meta = Some t, col = None, formalName = [],
        inputCh = map (\<lambda>g. data_env (fst g)) gs', outputCh = []\<rparr>
      (r # R))"
    by (simp only: loop_first)
  also have "\<dots> = with_columns tc (t, ms) # map (with_columns tc) gs'"
    unfolding R [symmetric]
    using correlate_held [OF keys grouped dist last, of None "[]" "[]"] by simp
  finally show ?thesis
    by (simp add: Cons g)
qed

text \<open>
  The example of the specification for any mapper: two tables with different keys,
  two rows of the first and one row of the second.
\<close>

lemma correlate_two_tables_three_rows:
  assumes "tc rA = (colA, FormalName meta1)" and "tc rB = (colB, FormalName meta1)"
    and "tc rC = (colC, FormalName meta2)" and "FormalName meta1 \<noteq> FormalName meta2"
  shows "correlate tc [data_env meta1, data_env meta2] [Inr rA, Inr rB, Inr rC] =
    [data_env (meta1\<lparr>Columns := Columns meta1 @ [colA, colB]\<rparr>)]"
  using assms
  by (simp add: correlate_def initial_def iteration_first iteration_held flush_def)

text \<open>
  C3. On the tables DEPT and EMP and the column rows DEPTNO, DEPTNAME (of DEPT) and
  EMPNO (of EMP), the instance of the specification's example in the SYSCAT dialect,
  the correlator sends only DEPT with its two columns: the row EMPNO makes it send
  DEPT and drop it, the loop ends with no table held, and EMP is never received.
\<close>

theorem C3_last_table_dropped:
  "correlate (Db2_toColumn example_Config) [data_env table_DEPT, data_env table_EMP]
     [Inr row_DEPTNO, Inr row_DEPTNAME, Inr row_EMPNO] =
   [data_env (table_DEPT\<lparr>Columns := [col_DEPTNO, col_DEPTNAME]\<rparr>)]"
  by (simp add: correlate_def initial_def iteration_first iteration_held example_rows flush_def)

text \<open>
  C2, as stated, fails: with the tables DEPT and EMP and column rows for DEPT only, EMP
  has zero matching rows and is not sent at all.
\<close>

theorem C2_counterexample:
  "correlate (Db2_toColumn example_Config) [data_env table_DEPT, data_env table_EMP]
     [Inr row_DEPTNO, Inr row_DEPTNAME] =
   [data_env (table_DEPT\<lparr>Columns := [col_DEPTNO, col_DEPTNAME]\<rparr>)]
   \<and> correlate (Db2_toColumn example_Config) [data_env table_DEPT, data_env table_EMP]
     [Inr row_DEPTNO, Inr row_DEPTNAME] \<noteq>
   [data_env (table_DEPT\<lparr>Columns := [col_DEPTNO, col_DEPTNAME]\<rparr>),
    data_env (table_EMP\<lparr>Columns := []\<rparr>)]"
  by (simp add: correlate_def initial_def iteration_first iteration_held example_rows flush_def)

theorem C2_witness:
  "keyed (Db2_toColumn example_Config)
     [(table_ACT, []), (table_DEPT, [row_DEPTNO, row_DEPTNAME]),
      (table_EMP, [row_EMPNO, row_LASTNAME])]
   \<and> populated [(table_DEPT, [row_DEPTNO, row_DEPTNAME]), (table_EMP, [row_EMPNO, row_LASTNAME])]
   \<and> distinct [FormalName table_ACT, FormalName table_DEPT, FormalName table_EMP]
   \<and> correlate (Db2_toColumn example_Config)
       [data_env table_ACT, data_env table_DEPT, data_env table_EMP]
       [Inr row_DEPTNO, Inr row_DEPTNAME, Inr row_EMPNO, Inr row_LASTNAME] =
     [data_env (table_ACT\<lparr>Columns := []\<rparr>),
      data_env (table_DEPT\<lparr>Columns := [col_DEPTNO, col_DEPTNAME]\<rparr>),
      data_env (table_EMP\<lparr>Columns := [col_EMPNO, col_LASTNAME]\<rparr>)]"
  using C2_amended [of "Db2_toColumn example_Config"
      "[(table_ACT, []), (table_DEPT, [row_DEPTNO, row_DEPTNAME]),
        (table_EMP, [row_EMPNO, row_LASTNAME])]"]
  by (simp add: keyed_def populated_def column_rows_def with_columns_def example_rows)

text \<open>
  An empty table that is not the first is outside the correlator's design: it is
  received for the column carried from the next table, which the guard reports as a
  correlation error, and it is sent with that column; the next table is not sent.
\<close>

lemma correlate_empty_table_between:
  "correlate (Db2_toColumn example_Config)
     [data_env table_DEPT, data_env table_ACT, data_env table_EMP]
     [Inr row_DEPTNO, Inr row_DEPTNAME, Inr row_EMPNO, Inr row_LASTNAME] =
   [data_env (table_DEPT\<lparr>Columns := [col_DEPTNO, col_DEPTNAME]\<rparr>),
    err_env (CorrelationError ''DB2INST1.ACT'' ''DB2INST1.EMP''),
    data_env (table_ACT\<lparr>Columns := [col_EMPNO]\<rparr>)]"
  by (simp add: correlate_def initial_def iteration_def await_table_def receive_def Let_def
      example_rows data_env_def flush_def)

lemma loop_append:
  "extractColumns_loop tc st (xs @ ys) =
     (case extractColumns_loop tc st xs of
        Returned sent \<Rightarrow> Returned sent
      | Looping st' \<Rightarrow> extractColumns_loop tc st' ys)"
  by (induction xs arbitrary: st) (simp_all split: flow.splits)

lemma snd_receive_drop: "snd (receive (drop k ch)) = drop (Suc k) ch"
  by (cases "drop k ch") (simp_all add: receive_def drop_Suc tl_drop [symmetric])

lemma received_Suc:
  "received ch (Suc k) = received ch k @ [fst (receive (drop k ch))]"
proof (induction k arbitrary: ch)
  case 0
  show ?case by simp
next
  case (Suc k)
  have "snd (receive ch) = drop 1 ch"
    using snd_receive_drop [of 0 ch] by simp
  then have "drop k (snd (receive ch)) = drop (Suc k) ch"
    by simp
  with Suc [of "snd (receive ch)"] show ?case
    by simp
qed

lemma sent_tables_append [simp]:
  "sent_tables (xs @ ys) = sent_tables xs @ sent_tables ys"
  by (simp add: sent_tables_def)

lemma sent_tables_envelopes [simp]:
  "sent_tables [data_env mt] = [table_of mt]" "sent_tables [err_env e] = []"
  by (simp_all add: sent_tables_def data_env_def err_env_def)

lemma table_of_append_column [simp]:
  "table_of (mt\<lparr>Columns := cs\<rparr>) = table_of mt"
  by (simp add: table_of_def)

lemma await_table_received:
  assumes "meta st = None" and "receive (inputCh st) = (mip, rest)" and "Err mip = None"
  shows "\<exists>mt0 st0. await_table st = Inr (mt0, st0) \<and> table_of mt0 = table_of (Data mip)
    \<and> inputCh st0 = rest \<and> sent_tables (outputCh st0) = sent_tables (outputCh st)"
proof (cases "col st")
  case None
  with assms show ?thesis by (simp add: await_table_def Let_def)
next
  case (Some c)
  with assms show ?thesis by (simp add: await_table_def Let_def)
qed

lemma iteration_after_await:
  assumes "await_table st = Inr (mt0, st0)" and "iteration tc st r = Looping st'"
  shows "\<exists>m. r = Inr m \<and> inputCh st' = inputCh st0
    \<and> (if FormalName mt0 = snd (tc m)
        then meta st' = Some (mt0\<lparr>Columns := Columns mt0 @ [fst (tc m)]\<rparr>)
          \<and> outputCh st' = outputCh st0
        else meta st' = None \<and> outputCh st' = outputCh st0 @ [data_env mt0])"
proof -
  from assms obtain m where r: "r = Inr m"
    by (cases r) (simp_all add: iteration_def)
  obtain c fn where tc: "tc m = (c, fn)" by (cases "tc m")
  show ?thesis
  proof (cases "FormalName mt0 = fn")
    case True
    with assms r tc have "st' = st0\<lparr>col := Some c, formalName := fn,
        meta := Some (mt0\<lparr>Columns := Columns mt0 @ [c]\<rparr>)\<rparr>"
      by (simp add: iteration_def Let_def)
    with r tc True show ?thesis by simp
  next
    case False
    with assms r tc have "st' = st0\<lparr>col := Some c, formalName := fn,
        outputCh := outputCh st0 @ [data_env mt0], meta := None\<rparr>"
      by (simp add: iteration_def Let_def)
    with r tc False show ?thesis by simp
  qed
qed

text \<open>What one pass through the loop body does to the tables received and sent.\<close>

lemma iteration_tables:
  assumes "iteration tc st r = Looping st'"
    and "inputCh st = drop k ch"
    and "sent_tables (outputCh st) @ held_table st = map (\<lambda>e. table_of (Data e)) (received ch k)"
  shows "\<exists>k'. inputCh st' = drop k' ch
    \<and> sent_tables (outputCh st') @ held_table st' =
        map (\<lambda>e. table_of (Data e)) (received ch k')"
proof (cases "meta st")
  case (Some mt)
  then have await: "await_table st = Inr (mt, st)"
    by (simp add: await_table_def)
  from iteration_after_await [OF await assms(1)] Some
  have "inputCh st' = inputCh st"
    and "sent_tables (outputCh st') @ held_table st' = sent_tables (outputCh st) @ held_table st"
    by (auto simp add: held_table_def split: if_splits)
  with assms(2,3) show ?thesis by auto
next
  case None
  obtain mip rest where rcv: "receive (inputCh st) = (mip, rest)"
    by (cases "receive (inputCh st)")
  with assms(2) have rest: "rest = drop (Suc k) ch"
    using snd_receive_drop [of k ch] by simp
  from rcv assms(2) have mip: "fst (receive (drop k ch)) = mip"
    by simp
  from assms(1) None rcv have ok: "Err mip = None"
    by (cases "Err mip") (simp_all add: iteration_def await_table_def)
  from await_table_received [OF None rcv ok] obtain mt0 st0
    where await: "await_table st = Inr (mt0, st0)"
      and same: "table_of mt0 = table_of (Data mip)"
      and inp: "inputCh st0 = rest"
      and out: "sent_tables (outputCh st0) = sent_tables (outputCh st)"
    by blast
  from None have held: "held_table st = []"
    by (simp add: held_table_def)
  from iteration_after_await [OF await assms(1)] same inp out
  have "inputCh st' = rest"
    and "sent_tables (outputCh st') @ held_table st' =
      sent_tables (outputCh st) @ [table_of (Data mip)]"
    by (auto simp add: held_table_def split: if_splits)
  with assms(3) rest mip held
  have "inputCh st' = drop (Suc k) ch
    \<and> sent_tables (outputCh st') @ held_table st' =
        map (\<lambda>e. table_of (Data e)) (received ch (Suc k))"
    by (simp add: received_Suc del: received.simps)
  then show ?thesis by blast
qed

lemma loop_tables:
  assumes "extractColumns_loop tc st scans = Looping st'"
    and "inputCh st = drop k ch"
    and "sent_tables (outputCh st) @ held_table st = map (\<lambda>e. table_of (Data e)) (received ch k)"
  shows "\<exists>k'. inputCh st' = drop k' ch
    \<and> sent_tables (outputCh st') @ held_table st' =
        map (\<lambda>e. table_of (Data e)) (received ch k')"
  using assms
proof (induction scans arbitrary: st k)
  case Nil
  then show ?case by auto
next
  case (Cons r scans)
  from Cons.prems(1) obtain st1 where step: "iteration tc st r = Looping st1"
    and rest: "extractColumns_loop tc st1 scans = Looping st'"
    by (cases "iteration tc st r") simp_all
  from iteration_tables [OF step Cons.prems(2,3)] obtain k1
    where "inputCh st1 = drop k1 ch"
      and "sent_tables (outputCh st1) @ held_table st1 =
        map (\<lambda>e. table_of (Data e)) (received ch k1)"
    by blast
  with Cons.IH [OF rest] show ?case by blast
qed

lemma iteration_ends_held:
  assumes "iteration tc st r = Looping st'" and "meta st' = Some mt"
  shows "\<exists>m. r = Inr m \<and> snd (tc m) = FormalName mt \<and> Columns mt \<noteq> []
    \<and> last (Columns mt) = fst (tc m)"
proof -
  from assms(1) obtain mt0 st0 where await: "await_table st = Inr (mt0, st0)"
    by (cases "await_table st") (auto simp add: iteration_def)
  from iteration_after_await [OF await assms(1)] assms(2)
  show ?thesis by (auto split: if_splits)
qed


text \<open>
  C4. If the loop over the column rows ends, without an early return, with a table
  \<open>mt\<close> held, then the last row processed mapped to the key of \<open>mt\<close> and its column is
  the last column of \<open>mt\<close>; the correlator sends \<open>mt\<close> as its last envelope; and it is sent
  exactly once: the tables sent before it are, in order, the first \<open>k\<close> tables received
  from the table channel, \<open>mt\<close> is the next table received, so the tables sent in the
  whole run are the first \<open>k + 1\<close> tables received, each once.
\<close>

theorem C4_terminal_flush:
  assumes "extractColumns_loop tc (initial ch) scans = Looping st" and "meta st = Some mt"
  shows "correlate tc ch scans = outputCh st @ [data_env mt]
    \<and> (\<exists>pre m. scans = pre @ [Inr m] \<and> snd (tc m) = FormalName mt \<and> Columns mt \<noteq> []
          \<and> last (Columns mt) = fst (tc m))
    \<and> (\<exists>k. sent_tables (outputCh st) = map (\<lambda>e. table_of (Data e)) (received ch k)
          \<and> table_of mt = table_of (Data (fst (receive (drop k ch))))
          \<and> sent_tables (correlate tc ch scans) =
              map (\<lambda>e. table_of (Data e)) (received ch (Suc k)))"
proof -
  have flushed: "correlate tc ch scans = outputCh st @ [data_env mt]"
    using assms by (simp add: correlate_def flush_def)
  have matched: "\<exists>pre m. scans = pre @ [Inr m] \<and> snd (tc m) = FormalName mt
      \<and> Columns mt \<noteq> [] \<and> last (Columns mt) = fst (tc m)"
  proof (cases scans rule: rev_cases)
    case Nil
    with assms show ?thesis by (auto simp add: initial_def)
  next
    case (snoc pre r)
    with assms(1) obtain st1 where "iteration tc st1 r = Looping st"
      by (auto simp add: loop_append split: flow.splits)
    from iteration_ends_held [OF this assms(2)] snoc show ?thesis by blast
  qed
  have "inputCh (initial ch) = drop 0 ch"
    and "sent_tables (outputCh (initial ch)) @ held_table (initial ch) =
      map (\<lambda>e. table_of (Data e)) (received ch 0)"
    by (simp_all add: initial_def held_table_def sent_tables_def)
  from loop_tables [OF assms(1) this] assms(2) obtain k'
    where tables: "sent_tables (outputCh st) @ [table_of mt] =
      map (\<lambda>e. table_of (Data e)) (received ch k')"
    by (auto simp add: held_table_def)
  then obtain k where k': "k' = Suc k"
    by (cases k') auto
  from tables have "sent_tables (outputCh st) = map (\<lambda>e. table_of (Data e)) (received ch k)
      \<and> table_of mt = table_of (Data (fst (receive (drop k ch))))"
    unfolding k' received_Suc by simp
  moreover from tables have "sent_tables (correlate tc ch scans) =
      map (\<lambda>e. table_of (Data e)) (received ch (Suc k))"
    unfolding k' flushed by simp
  ultimately show ?thesis
    using flushed matched by blast
qed

theorem C4_witness:
  "extractColumns_loop (Db2_toColumn example_Config)
       (initial [data_env table_DEPT, data_env table_EMP])
       [Inr row_DEPTNO, Inr row_DEPTNAME, Inr row_EMPNO, Inr row_LASTNAME] =
     Looping \<lparr>meta = Some (table_EMP\<lparr>Columns := [col_EMPNO, col_LASTNAME]\<rparr>),
       col = Some col_LASTNAME, formalName = ''DB2INST1.EMP'', inputCh = [],
       outputCh = [data_env (table_DEPT\<lparr>Columns := [col_DEPTNO, col_DEPTNAME]\<rparr>)]\<rparr>
   \<and> correlate (Db2_toColumn example_Config) [data_env table_DEPT, data_env table_EMP]
       [Inr row_DEPTNO, Inr row_DEPTNAME, Inr row_EMPNO, Inr row_LASTNAME] =
     [data_env (table_DEPT\<lparr>Columns := [col_DEPTNO, col_DEPTNAME]\<rparr>),
      data_env (table_EMP\<lparr>Columns := [col_EMPNO, col_LASTNAME]\<rparr>)]"
proof -
  have run: "extractColumns_loop (Db2_toColumn example_Config)
       (initial [data_env table_DEPT, data_env table_EMP])
       [Inr row_DEPTNO, Inr row_DEPTNAME, Inr row_EMPNO, Inr row_LASTNAME] =
     Looping \<lparr>meta = Some (table_EMP\<lparr>Columns := [col_EMPNO, col_LASTNAME]\<rparr>),
       col = Some col_LASTNAME, formalName = ''DB2INST1.EMP'', inputCh = [],
       outputCh = [data_env (table_DEPT\<lparr>Columns := [col_DEPTNO, col_DEPTNAME]\<rparr>)]\<rparr>"
    by (simp add: initial_def iteration_def await_table_def receive_def Let_def example_rows
        data_env_def)
  from C4_terminal_flush [OF run] run show ?thesis
    by simp
qed

section \<open>Run and the error envelopes\<close>

lemma extractTables_failing:
  "extractTables lib toMetadata failing_Database = [err_env (DriverError ''SQL0551N'')]"
  by (simp add: extractTables_def failing_Database_def ColumnList_def)

lemma receive_Cons: "receive (mip # rest) = (mip, rest)"
  by (simp add: receive_def)

lemma correlate_forwards_error:
  "correlate toColumn (err_env e # rest) (scanned # scans) = [err_env e]"
  by (simp add: correlate_def flush_def iteration_def await_table_def initial_def
      receive_def err_env_def)

lemma extractColumns_failing:
  "extractColumns lib toColumn failing_Database (err_env e # rest) = [err_env e]"
  by (simp add: extractColumns_def failing_Database_def ColumnList_def correlate_forwards_error)

lemma Run_reports_sink_errors_only:
  assumes "open_error db = None" and "\<forall>out b. snd (Write out b) = None"
  shows "snd (Run lib toMetadata toColumn db Write out) = None"
  using assms(1) writeCSV_accepting [OF assms(2)] by (simp add: Run_def)

text \<open>
  C1. When the table stage fails at column discovery, its error envelope reaches the
  correlator, which forwards it and stops, and \<open>writeCSV\<close> then serializes the
  envelope's zero Metadata and returns nil: \<open>Run\<close> reports no error, and the sink holds
  the line \<open>20,,,,,,\<close> and a blank line written after the failure.
\<close>

theorem C1_Run_returns_nil_after_stage_error:
  "Db2_Run lib example_Config failing_Database buffer_Write [] = (''20,,,,,,'' @ [NL, NL], None)"
proof -
  have opened: "open_error failing_Database = None"
    by (simp add: failing_Database_def)
  have sent: "extractColumns lib (Db2_toColumn example_Config) failing_Database
      (extractTables lib (Db2_toMetadata example_Config) failing_Database) =
      [err_env (DriverError ''SQL0551N'')]"
    by (simp only: extractTables_failing extractColumns_failing)
  show ?thesis
    by (simp add: Db2_Run_def Run_def Let_def opened sent buffer_Write_def ToCSVString_zero
        err_env_def)
qed

end
